theory Spec2Isabelle
  imports Complex_Main "HOL-Library.Multiset"
begin

section \<open>Content hover coordination (contentHover.ts)\<close>

text \<open>
  A shallow embedding of \<^verbatim>\<open>src/vs/editor/contrib/hover/browser/contentHover.ts\<close>:
  the hover result and its filter, the hover computer, and the controller that decides
  how the visible hover changes when a trigger or an operation result arrives.

  Line numbers, columns, priorities and ordinals are JavaScript numbers that hold
  integers: they are \<open>int\<close>. Pixel coordinates are idealised as \<open>real\<close>.
  Objects compared with \<^verbatim>\<open>===\<close> carry an object identity.
\<close>

subsection \<open>Positions and ranges\<close>

record Position =
  lineNumber :: int
  column :: int

record Range =
  startLineNumber :: int
  startColumn :: int
  endLineNumber :: int
  endColumn :: int

definition getStartPosition :: "Range \<Rightarrow> Position" where
  "getStartPosition r = \<lparr>lineNumber = startLineNumber r, column = startColumn r\<rparr>"

definition getEndPosition :: "Range \<Rightarrow> Position" where
  "getEndPosition r = \<lparr>lineNumber = endLineNumber r, column = endColumn r\<rparr>"

text \<open>Document order on positions: by line, then by column.\<close>

definition isBeforeOrEqual :: "Position \<Rightarrow> Position \<Rightarrow> bool" where
  "isBeforeOrEqual a b =
     (lineNumber a < lineNumber b \<or> (lineNumber a = lineNumber b \<and> column a \<le> column b))"

text \<open>
  A range encloses another when it starts no later and ends no earlier. This is the
  order in which "smallest enclosing range" is read.
\<close>

definition encloses :: "Range \<Rightarrow> Range \<Rightarrow> bool" where
  "encloses outer inner =
     (isBeforeOrEqual (getStartPosition outer) (getStartPosition inner) \<and>
      isBeforeOrEqual (getEndPosition inner) (getEndPosition outer))"

text \<open>
  Modelled from the spec: \<^verbatim>\<open>Range.plusRange\<close> (vs/editor/common/core/range.ts) is not
  under src/. The spec calls it the union of two ranges, their smallest enclosing range:
  it starts at the earlier of the two starts and ends at the later of the two ends.
\<close>

definition plusRange :: "Range \<Rightarrow> Range \<Rightarrow> Range" where
  "plusRange a b =
     (let (sl, sc) =
            (if startLineNumber b < startLineNumber a then (startLineNumber b, startColumn b)
             else if startLineNumber b = startLineNumber a
               then (startLineNumber b, min (startColumn b) (startColumn a))
             else (startLineNumber a, startColumn a));
          (el, ec) =
            (if endLineNumber b > endLineNumber a then (endLineNumber b, endColumn b)
             else if endLineNumber b = endLineNumber a
               then (endLineNumber b, max (endColumn b) (endColumn a))
             else (endLineNumber a, endColumn a))
      in \<lparr>startLineNumber = sl, startColumn = sc, endLineNumber = el, endColumn = ec\<rparr>)"

subsection \<open>Anchors\<close>

datatype HoverAnchorType = Range | ForeignElement

text \<open>
  The anchor classes live in hoverTypes.ts, which is not under src/. The record has the
  members contentHover.ts reads. \<open>supportsMarkerHover\<close> is \<^verbatim>\<open>boolean | undefined\<close>
  and only tested for truth, so \<open>undefined\<close> is \<open>False\<close>.
\<close>

record HoverAnchor =
  anchor_type :: HoverAnchorType
  priority :: int
  anchor_range :: Range
  initialMousePosX :: "real option"
  initialMousePosY :: "real option"
  supportsMarkerHover :: bool

text \<open>\<^verbatim>\<open>new HoverRangeAnchor(priority, range, initialMousePosX, initialMousePosY)\<close>\<close>

definition HoverRangeAnchor :: "int \<Rightarrow> Range \<Rightarrow> real option \<Rightarrow> real option \<Rightarrow> HoverAnchor" where
  "HoverRangeAnchor p r x y =
     \<lparr>anchor_type = Range, priority = p, anchor_range = r,
      initialMousePosX = x, initialMousePosY = y, supportsMarkerHover = False\<rparr>"

text \<open>
  Modelled from the spec: \<^verbatim>\<open>HoverAnchor.equals\<close> (hoverTypes.ts) is not under src/.
  The spec's equality rule: two anchors are equal iff same type and same range.
\<close>

definition equals :: "HoverAnchor \<Rightarrow> HoverAnchor \<Rightarrow> bool" where
  "equals a other = (anchor_type a = anchor_type other \<and> anchor_range a = anchor_range other)"

subsection \<open>Hover parts and hover results\<close>

text \<open>
  \<open>owner\<close> is the identity of the participant that produced the part (compared with
  \<^verbatim>\<open>===\<close> in the source). \<open>forceShowAtRange\<close> and \<open>isBeforeContent\<close> are optional
  booleans only tested for truth.
\<close>

record IHoverPart =
  owner :: nat
  part_range :: Range
  forceShowAtRange :: bool
  isBeforeContent :: bool
  isValidForHoverAnchor :: "HoverAnchor \<Rightarrow> bool"

text \<open>
  \<^verbatim>\<open>class HoverResult\<close> and its subclass \<^verbatim>\<open>FilteredHoverResult\<close>. All fields are
  readonly; \<open>oid\<close> is the identity of the object, given at allocation.
\<close>

datatype HoverResult =
    HoverResult (oid: nat) (anchor: HoverAnchor) (messages: "IHoverPart list") (isComplete: bool)
  | FilteredHoverResult (oid: nat) (original: HoverResult)
      (anchor: HoverAnchor) (messages: "IHoverPart list") (isComplete: bool)

text \<open>
  \<^verbatim>\<open>filter(anchor)\<close>, with the allocation counter passed through: the first argument
  is the identity the next \<^verbatim>\<open>new\<close> will give, the second component of the result is
  the counter afterwards. The subclass overrides the method and delegates to its original.
\<close>

fun filter_HoverResult :: "nat \<Rightarrow> HoverResult \<Rightarrow> HoverAnchor \<Rightarrow> HoverResult \<times> nat" where
  "filter_HoverResult n (HoverResult i a ms c) anc =
     (let filteredMessages = filter (\<lambda>m. isValidForHoverAnchor m anc) ms
      in if length filteredMessages = length ms then (HoverResult i a ms c, n)
         else (FilteredHoverResult n (HoverResult i a ms c) a filteredMessages c, Suc n))"
| "filter_HoverResult n (FilteredHoverResult i orig a ms c) anc = filter_HoverResult n orig anc"

text \<open>The parts a result would have if its filter kept exactly the valid ones.\<close>

definition validParts :: "IHoverPart list \<Rightarrow> HoverAnchor \<Rightarrow> IHoverPart list" where
  "validParts ms anc = filter (\<lambda>m. isValidForHoverAnchor m anc) ms"

text \<open>The unfiltered result a result stands for: itself, or the original it delegates to.\<close>

fun unfiltered :: "HoverResult \<Rightarrow> HoverResult" where
  "unfiltered (HoverResult i a ms c) = HoverResult i a ms c"
| "unfiltered (FilteredHoverResult i orig a ms c) = unfiltered orig"

subsection \<open>The editor, as far as contentHover.ts reads it\<close>

record IModelDecoration =
  deco_range :: Range
  isWholeLine :: bool
  showIfCollapsed :: bool

text \<open>
  The text model with its view model: line count, the end column of a line, the
  decorations of a line, and the coordinate conversion \<^verbatim>\<open>computeHoverRanges\<close> uses.
\<close>

record ITextModel =
  getLineCount :: int
  getLineMaxColumn :: "int \<Rightarrow> int"
  getLineDecorations :: "int \<Rightarrow> IModelDecoration list"
  convertModelRangeToViewRange :: "Range \<Rightarrow> Range"
  getLineMinColumn :: "int \<Rightarrow> int"
  convertViewPositionToModelPosition :: "Position \<Rightarrow> Position"

record Rect =
  rect_left :: real
  rect_top :: real
  rect_width :: real
  rect_height :: real

text \<open>
  \<open>getModel = None\<close> is \<^verbatim>\<open>!editor.hasModel()\<close>. \<open>hover_sticky\<close> and \<open>hover_above\<close>
  are the two fields of \<^verbatim>\<open>EditorOption.hover\<close> that are read,
  \<open>widgetPagePosition\<close> is what \<^verbatim>\<open>dom.getDomNodePagePosition\<close> returns for the
  widget's node.
\<close>

record ICodeEditor =
  getModel :: "ITextModel option"
  hover_sticky :: bool
  hover_above :: bool
  typicalHalfwidthCharacterWidth :: real
  widgetPagePosition :: Rect

datatype MouseTargetType = CONTENT_TEXT | CONTENT_EMPTY | OTHER_TARGET

record IEditorMouseEvent =
  target_type :: MouseTargetType
  target_range :: Range
  isAfterLines :: bool
  horizontalDistanceToText :: "real option"
  posx :: real
  posy :: real

datatype HoverStartMode = Delayed | Immediate

datatype HoverStartSource = Mouse | Keyboard

subsection \<open>Participants\<close>

text \<open>
  What one call of \<^verbatim>\<open>renderHoverParts(context, hoverParts)\<close> does to its context:
  the nodes it appends to the fragment, whether it puts content into the status bar,
  and whether it sets a colour picker.
\<close>

record RenderedParts =
  nodes :: "string list"
  statusBarContent :: bool
  setsColorPicker :: bool

text \<open>
  \<open>pid\<close> is the identity of the participant object. \<open>suggestHoverAnchor\<close> and
  \<open>createLoadingMessage\<close> are optional methods. \<open>p_computeSync\<close> may hold
  \<^verbatim>\<open>undefined\<close> entries (\<open>None\<close>), which the computer drops.
\<close>

record IEditorHoverParticipant =
  pid :: nat
  hoverOrdinal :: int
  suggestHoverAnchor :: "(IEditorMouseEvent \<Rightarrow> HoverAnchor option) option"
  p_computeSync :: "HoverAnchor \<Rightarrow> IModelDecoration list \<Rightarrow> IHoverPart option list"
  createLoadingMessage :: "(HoverAnchor \<Rightarrow> IHoverPart option) option"
  renderHoverParts :: "IHoverPart list \<Rightarrow> RenderedParts"

subsection \<open>ContentHoverComputer\<close>

record ContentHoverComputer =
  c_anchor :: "HoverAnchor option"
  c_shouldFocus :: bool
  c_source :: HoverStartSource
  c_insistOnKeepingHoverVisible :: bool

text \<open>The filter predicate of \<^verbatim>\<open>_getLineDecorations\<close>, on one decoration.\<close>

definition lineDecorationFilter :: "int \<Rightarrow> int \<Rightarrow> HoverAnchor \<Rightarrow> IModelDecoration \<Rightarrow> bool" where
  "lineDecorationFilter lineNo maxColumn anc d =
     (if isWholeLine d then True
      else
        (let startCol = (if startLineNumber (deco_range d) = lineNo
                         then startColumn (deco_range d) else 1);
             endCol = (if endLineNumber (deco_range d) = lineNo
                       then endColumn (deco_range d) else maxColumn)
         in if showIfCollapsed d
            then (if startCol > startColumn (anchor_range anc) + 1
                     \<or> endColumn (anchor_range anc) - 1 > endCol then False else True)
            else (if startCol > startColumn (anchor_range anc)
                     \<or> endColumn (anchor_range anc) > endCol then False else True)))"

text \<open>\<^verbatim>\<open>ContentHoverComputer._getLineDecorations(editor, anchor)\<close>, on an editor with a model.\<close>

definition computer_getLineDecorations :: "ITextModel \<Rightarrow> HoverAnchor \<Rightarrow> IModelDecoration list" where
  "computer_getLineDecorations model anc =
     (if anchor_type anc \<noteq> Range \<and> \<not> supportsMarkerHover anc then []
      else
        (let lineNo = startLineNumber (anchor_range anc)
         in if lineNo > getLineCount model then []
            else
              (let maxColumn = getLineMaxColumn model lineNo
               in filter (lineDecorationFilter lineNo maxColumn anc)
                    (getLineDecorations model lineNo))))"

text \<open>
  Modelled from the spec: \<^verbatim>\<open>coalesce\<close> (vs/base/common/arrays.ts) is not under src/.
  The spec: empty/undefined entries are dropped, the order of the others is kept.
\<close>

fun coalesce :: "'a option list \<Rightarrow> 'a list" where
  "coalesce [] = []"
| "coalesce (None # xs) = coalesce xs"
| "coalesce (Some x # xs) = x # coalesce xs"

text \<open>The loop of \<^verbatim>\<open>computeSync\<close>: \<^verbatim>\<open>result = result.concat(participant.computeSync(...))\<close>.\<close>

fun computeSync_loop ::
  "IEditorHoverParticipant list \<Rightarrow> HoverAnchor \<Rightarrow> IModelDecoration list \<Rightarrow>
   IHoverPart option list \<Rightarrow> IHoverPart option list" where
  "computeSync_loop [] anc decs result = result"
| "computeSync_loop (p # ps) anc decs result =
     computeSync_loop ps anc decs (result @ p_computeSync p anc decs)"

definition computeSync ::
  "ICodeEditor \<Rightarrow> IEditorHoverParticipant list \<Rightarrow> ContentHoverComputer \<Rightarrow> IHoverPart list" where
  "computeSync ed ps cm =
     (case getModel ed of
        None \<Rightarrow> []
      | Some model \<Rightarrow>
          (case c_anchor cm of
             None \<Rightarrow> []
           | Some anc \<Rightarrow>
               (let lineDecorations = computer_getLineDecorations model anc
                in coalesce (computeSync_loop ps anc lineDecorations []))))"

text \<open>
  The decoration rule in the spec's words: whole-line, or the decoration's column span on
  the anchor's line covers the anchor's column span, with one column of tolerance on each
  side for a show-if-collapsed decoration. A decoration that starts (ends) on another line
  spans from column 1 (to the line's end column).
\<close>

definition columnSpanOnLine :: "int \<Rightarrow> int \<Rightarrow> IModelDecoration \<Rightarrow> int \<times> int" where
  "columnSpanOnLine lineNo maxColumn d =
     ((if startLineNumber (deco_range d) = lineNo then startColumn (deco_range d) else 1),
      (if endLineNumber (deco_range d) = lineNo then endColumn (deco_range d) else maxColumn))"

definition qualifies :: "ITextModel \<Rightarrow> HoverAnchor \<Rightarrow> IModelDecoration \<Rightarrow> bool" where
  "qualifies model anc d =
     (let lineNo = startLineNumber (anchor_range anc);
          (lo, hi) = columnSpanOnLine lineNo (getLineMaxColumn model lineNo) d;
          tolerance = (if showIfCollapsed d then 1 else 0)
      in isWholeLine d \<or>
         (lo \<le> startColumn (anchor_range anc) + tolerance \<and>
          endColumn (anchor_range anc) - tolerance \<le> hi))"

subsection \<open>The content hover widget\<close>

text \<open>
  \<^verbatim>\<open>ContentHoverVisibleData\<close>. \<open>colorPicker\<close> tells whether a colour picker is present.
  \<open>highlight\<close> stands for the \<open>disposables\<close> field: the highlight decoration that is
  cleared when the data is disposed of.
\<close>

record ContentHoverVisibleData =
  colorPicker :: bool
  showAtPosition :: Position
  showAtSecondaryPosition :: Position
  preferAbove :: bool
  stoleFocus :: bool
  vd_source :: HoverStartSource
  vd_isBeforeContent :: bool
  vd_initialMousePosX :: "real option"
  vd_initialMousePosY :: "real option"
  closestMouseDistance :: "real option"
  highlight :: Range

text \<open>
  The widget: its visible data (\<open>None\<close> when hidden) and the children of the hover's
  contents node.
\<close>

record ContentHoverWidget =
  visibleData :: "ContentHoverVisibleData option"
  contentsDomNode :: "string list"

text \<open>\<^verbatim>\<open>get position()\<close>: \<open>None\<close> if the hover is not visible.\<close>

definition widget_position :: "ContentHoverWidget \<Rightarrow> Position option" where
  "widget_position w = (case visibleData w of None \<Rightarrow> None | Some vd \<Rightarrow> Some (showAtPosition vd))"

definition computeDistanceFromPointToRectangle ::
  "real \<Rightarrow> real \<Rightarrow> real \<Rightarrow> real \<Rightarrow> real \<Rightarrow> real \<Rightarrow> real" where
  "computeDistanceFromPointToRectangle pointX pointY left topY width height =
     (let x = left + width / 2;
          y = topY + height / 2;
          dx = max (\<bar>pointX - x\<bar> - width / 2) 0;
          dy = max (\<bar>pointY - y\<bar> - height / 2) 0
      in sqrt (dx * dx + dy * dy))"

text \<open>
  \<^verbatim>\<open>isMouseGettingCloser(posx, posy)\<close>: the answer and the widget afterwards (the
  method records the first mouse position and the closest distance seen).
\<close>

definition isMouseGettingCloser ::
  "Rect \<Rightarrow> real \<Rightarrow> real \<Rightarrow> ContentHoverWidget \<Rightarrow> bool \<times> ContentHoverWidget" where
  "isMouseGettingCloser widgetRect px py w =
     (case visibleData w of
        None \<Rightarrow> (False, w)
      | Some vd \<Rightarrow>
          (case (vd_initialMousePosX vd, vd_initialMousePosY vd) of
             (Some ix, Some iy) \<Rightarrow>
               (let closest0 =
                      (case closestMouseDistance vd of
                         None \<Rightarrow> computeDistanceFromPointToRectangle ix iy
                                   (rect_left widgetRect) (rect_top widgetRect)
                                   (rect_width widgetRect) (rect_height widgetRect)
                       | Some c \<Rightarrow> c);
                    distance = computeDistanceFromPointToRectangle px py
                                 (rect_left widgetRect) (rect_top widgetRect)
                                 (rect_width widgetRect) (rect_height widgetRect)
                in if distance > closest0 + 4
                   then (False, w\<lparr>visibleData := Some (vd\<lparr>closestMouseDistance := Some closest0\<rparr>)\<rparr>)
                   else (True, w\<lparr>visibleData :=
                                  Some (vd\<lparr>closestMouseDistance := Some (min closest0 distance)\<rparr>)\<rparr>))
           | _ \<Rightarrow>
               (False, w\<lparr>visibleData :=
                          Some (vd\<lparr>vd_initialMousePosX := Some px, vd_initialMousePosY := Some py\<rparr>)\<rparr>)))"

text \<open>\<^verbatim>\<open>showAt(node, visibleData)\<close>, \<^verbatim>\<open>hide()\<close> and \<^verbatim>\<open>clear()\<close>; layout is left out.\<close>

definition widget_showAt ::
  "string list \<Rightarrow> ContentHoverVisibleData \<Rightarrow> ContentHoverWidget \<Rightarrow> ContentHoverWidget" where
  "widget_showAt fragment vd w = w\<lparr>visibleData := Some vd, contentsDomNode := fragment\<rparr>"

definition widget_hide :: "ContentHoverWidget \<Rightarrow> ContentHoverWidget" where
  "widget_hide w = (case visibleData w of None \<Rightarrow> w | Some vd \<Rightarrow> w\<lparr>visibleData := None\<rparr>)"

definition widget_clear :: "ContentHoverWidget \<Rightarrow> ContentHoverWidget" where
  "widget_clear w = w\<lparr>contentsDomNode := []\<rparr>"

subsection \<open>computeHoverRanges\<close>

datatype error = TypeError

record HoverRanges =
  hr_showAtPosition :: Position
  hr_showAtSecondaryPosition :: Position
  highlightRange :: Range

text \<open>
  The loop over the messages, on the three variables it updates:
  \<open>renderStartColumn\<close>, \<open>highlightRange\<close> and \<open>forceShowAtRange\<close>.
\<close>

fun computeHoverRanges_loop ::
  "int \<Rightarrow> int \<Rightarrow> IHoverPart list \<Rightarrow> int \<times> Range \<times> Range option \<Rightarrow> int \<times> Range \<times> Range option" where
  "computeHoverRanges_loop startColumnBoundary anchorLineNumber [] acc = acc"
| "computeHoverRanges_loop startColumnBoundary anchorLineNumber (msg # msgs)
     (renderStartColumn, hl, forceShow) =
     computeHoverRanges_loop startColumnBoundary anchorLineNumber msgs
       ((if startLineNumber (part_range msg) = anchorLineNumber
            \<and> endLineNumber (part_range msg) = anchorLineNumber
         then max (min renderStartColumn (startColumn (part_range msg))) startColumnBoundary
         else renderStartColumn),
        plusRange hl (part_range msg),
        (if forceShowAtRange msg then Some (part_range msg) else forceShow))"

text \<open>
  The value of \<^verbatim>\<open>startColumnBoundary\<close> in \<^verbatim>\<open>computeHoverRanges\<close>: 1 without a model,
  else the model column of the first column of the anchor's view line.
\<close>

definition startColumnBoundary :: "ICodeEditor \<Rightarrow> Range \<Rightarrow> int" where
  "startColumnBoundary ed anchorRange =
     (case getModel ed of
        None \<Rightarrow> 1
      | Some model \<Rightarrow>
          (let anchorViewRange = convertModelRangeToViewRange model anchorRange;
               anchorViewRangeStart =
                 \<lparr>lineNumber = startLineNumber anchorViewRange,
                  column = getLineMinColumn model (startLineNumber anchorViewRange)\<rparr>
           in column (convertViewPositionToModelPosition model anchorViewRangeStart)))"

text \<open>
  \<^verbatim>\<open>ContentHoverController.computeHoverRanges(editor, anchorRange, messages)\<close>.
  Reading \<^verbatim>\<open>messages[0].range\<close> of an empty array throws a TypeError.
\<close>

definition computeHoverRanges ::
  "ICodeEditor \<Rightarrow> Range \<Rightarrow> IHoverPart list \<Rightarrow> error + HoverRanges" where
  "computeHoverRanges ed anchorRange msgs =
     (let anchorLineNumber = startLineNumber anchorRange
      in case msgs of
           [] \<Rightarrow> Inl TypeError
         | m0 # _ \<Rightarrow>
             (let (renderStartColumn, hl, forceShow) =
                    computeHoverRanges_loop (startColumnBoundary ed anchorRange) anchorLineNumber msgs
                      (startColumn anchorRange, part_range m0, None)
              in Inr \<lparr>hr_showAtPosition =
                        (case forceShow of
                           Some r \<Rightarrow> getStartPosition r
                         | None \<Rightarrow> \<lparr>lineNumber = anchorLineNumber, column = startColumn anchorRange\<rparr>),
                      hr_showAtSecondaryPosition =
                        (case forceShow of
                           Some r \<Rightarrow> getStartPosition r
                         | None \<Rightarrow> \<lparr>lineNumber = anchorLineNumber, column = renderStartColumn\<rparr>),
                      highlightRange = hl\<rparr>))"

text \<open>
  The union of a non-empty list of ranges, in the spec's words the smallest range
  enclosing all of them; the range of the empty list is not defined.
\<close>

fun rangeUnion :: "Range list \<Rightarrow> Range option" where
  "rangeUnion [] = None"
| "rangeUnion (r # rs) = Some (foldl plusRange r rs)"

subsection \<open>ContentHoverController\<close>

text \<open>
  The hover operation (hoverOperation.ts) is a service the controller only calls:
  the state keeps the calls made to it, oldest first.
\<close>

datatype HoverOperationCall = OpCancel | OpStart HoverStartMode

record ContentHoverController =
  participants :: "IEditorHoverParticipant list"
  widget :: ContentHoverWidget
  computer :: ContentHoverComputer
  hoverOperation :: "HoverOperationCall list"
  currentResult :: "HoverResult option"
  nextOid :: nat

text \<open>
  The constructor: the registered participants (instantiated), sorted by
  \<open>hoverOrdinal\<close> with a stable sort, as \<^verbatim>\<open>Array.prototype.sort\<close> is.
\<close>

definition ContentHoverController_new :: "IEditorHoverParticipant list \<Rightarrow> ContentHoverController" where
  "ContentHoverController_new registry =
     \<lparr>participants = sort_key hoverOrdinal registry,
      widget = \<lparr>visibleData = None, contentsDomNode = []\<rparr>,
      computer = \<lparr>c_anchor = None, c_shouldFocus = False, c_source = Mouse,
                  c_insistOnKeepingHoverVisible = False\<rparr>,
      hoverOperation = [],
      currentResult = None,
      nextOid = 0\<rparr>"

text \<open>\<^verbatim>\<open>_startHoverOperationIfNecessary\<close>\<close>

definition startHoverOperationIfNecessary ::
  "ContentHoverController \<Rightarrow> HoverAnchor \<Rightarrow> HoverStartMode \<Rightarrow> HoverStartSource \<Rightarrow> bool \<Rightarrow> bool \<Rightarrow>
   ContentHoverController" where
  "startHoverOperationIfNecessary s anc mode src focus insist =
     (if (case c_anchor (computer s) of None \<Rightarrow> False | Some a \<Rightarrow> equals a anc) then s
      else s\<lparr>hoverOperation := hoverOperation s @ [OpCancel, OpStart mode],
              computer := \<lparr>c_anchor = Some anc, c_shouldFocus = focus, c_source = src,
                           c_insistOnKeepingHoverVisible = insist\<rparr>\<rparr>)"

text \<open>The loop of \<^verbatim>\<open>_renderMessages\<close> over the participants.\<close>

fun renderParticipants :: "IEditorHoverParticipant list \<Rightarrow> IHoverPart list \<Rightarrow> RenderedParts list" where
  "renderParticipants [] msgs = []"
| "renderParticipants (p # ps) msgs =
     (let hoverParts = filter (\<lambda>msg. owner msg = pid p) msgs
      in if length hoverParts > 0
         then renderHoverParts p hoverParts # renderParticipants ps msgs
         else renderParticipants ps msgs)"

text \<open>\<^verbatim>\<open>_renderMessages(anchor, messages)\<close>\<close>

definition renderMessages ::
  "ICodeEditor \<Rightarrow> ContentHoverController \<Rightarrow> HoverAnchor \<Rightarrow> IHoverPart list \<Rightarrow>
   error + ContentHoverController" where
  "renderMessages ed s anc msgs =
     (case computeHoverRanges ed (anchor_range anc) msgs of
        Inl e \<Rightarrow> Inl e
      | Inr ranges \<Rightarrow>
          (let rendered = renderParticipants (participants s) msgs;
               isBefore = list_ex isBeforeContent msgs;
               fragment = concat (map nodes rendered)
                          @ (if list_ex statusBarContent rendered then [''status-bar''] else [])
           in if fragment \<noteq> []
              then Inr (s\<lparr>widget := widget_showAt fragment
                             \<lparr>colorPicker = list_ex setsColorPicker rendered,
                              showAtPosition = hr_showAtPosition ranges,
                              showAtSecondaryPosition = hr_showAtSecondaryPosition ranges,
                              preferAbove = hover_above ed,
                              stoleFocus = c_shouldFocus (computer s),
                              vd_source = c_source (computer s),
                              vd_isBeforeContent = isBefore,
                              vd_initialMousePosX = initialMousePosX anc,
                              vd_initialMousePosY = initialMousePosY anc,
                              closestMouseDistance = None,
                              highlight = highlightRange ranges\<rparr>
                             (widget s)\<rparr>)
              else Inr s))"

text \<open>\<^verbatim>\<open>this._currentResult === hoverResult\<close>: both null, or the same object.\<close>

definition sameObject :: "HoverResult option \<Rightarrow> HoverResult option \<Rightarrow> bool" where
  "sameObject a b =
     (case (a, b) of
        (None, None) \<Rightarrow> True
      | (Some x, Some y) \<Rightarrow> oid x = oid y
      | _ \<Rightarrow> False)"

text \<open>\<^verbatim>\<open>_setCurrentResult(hoverResult)\<close>\<close>

definition setCurrentResult ::
  "ICodeEditor \<Rightarrow> ContentHoverController \<Rightarrow> HoverResult option \<Rightarrow> error + ContentHoverController" where
  "setCurrentResult ed s hoverResult =
     (if sameObject (currentResult s) hoverResult then Inr s
      else
        (let hoverResult' =
               (case hoverResult of
                  None \<Rightarrow> None
                | Some r \<Rightarrow> if length (messages r) = 0 then None else Some r);
             s1 = s\<lparr>currentResult := hoverResult'\<rparr>
         in case currentResult s1 of
              Some r \<Rightarrow> renderMessages ed s1 (anchor r) (messages r)
            | None \<Rightarrow> Inr (s1\<lparr>widget := widget_hide (widget s1)\<rparr>)))"

text \<open>
  The local \<^verbatim>\<open>isGettingCloser\<close> of \<^verbatim>\<open>_startShowingOrUpdateHover\<close>:
  \<^verbatim>\<open>hoverIsSticky && mouseEvent && this._widget.isMouseGettingCloser(...)\<close>. The widget
  method is only called when the hover is sticky and there is a mouse event.
\<close>

definition isGettingCloser ::
  "ICodeEditor \<Rightarrow> IEditorMouseEvent option \<Rightarrow> ContentHoverWidget \<Rightarrow> bool \<times> ContentHoverWidget" where
  "isGettingCloser ed mouseEvent w =
     (if hover_sticky ed
      then (case mouseEvent of
              None \<Rightarrow> (False, w)
            | Some me \<Rightarrow> isMouseGettingCloser (widgetPagePosition ed) (posx me) (posy me) w)
      else (False, w))"

text \<open>
  \<^verbatim>\<open>_startShowingOrUpdateHover\<close>. \<open>canAdopt\<close> is \<^verbatim>\<open>anchor.canAdoptVisibleHover\<close>, a
  method of the anchor classes (hoverTypes.ts, not under src/), taken as a parameter.
\<close>

definition startShowingOrUpdateHover ::
  "(HoverAnchor \<Rightarrow> HoverAnchor \<Rightarrow> Position \<Rightarrow> bool) \<Rightarrow> ICodeEditor \<Rightarrow> ContentHoverController \<Rightarrow>
   HoverAnchor option \<Rightarrow> HoverStartMode \<Rightarrow> HoverStartSource \<Rightarrow> bool \<Rightarrow> IEditorMouseEvent option \<Rightarrow>
   error + (bool \<times> ContentHoverController)" where
  "startShowingOrUpdateHover canAdopt ed s anc mode src focus mouseEvent =
     (case (widget_position (widget s), currentResult s) of
        (Some pos, Some cur) \<Rightarrow>
          (let (closer, w1) = isGettingCloser ed mouseEvent (widget s);
               s1 = s\<lparr>widget := w1\<rparr>
           in if closer
              then (case anc of
                      Some a \<Rightarrow> Inr (True, startHoverOperationIfNecessary s1 a mode src focus True)
                    | None \<Rightarrow> Inr (True, s1))
              else
                (case anc of
                   None \<Rightarrow>
                     (case setCurrentResult ed s1 None of
                        Inl e \<Rightarrow> Inl e
                      | Inr s2 \<Rightarrow> Inr (False, s2))
                 | Some a \<Rightarrow>
                     if equals (anchor cur) a then Inr (True, s1)
                     else if \<not> canAdopt a (anchor cur) pos
                     then (case setCurrentResult ed s1 None of
                             Inl e \<Rightarrow> Inl e
                           | Inr s2 \<Rightarrow>
                               Inr (True, startHoverOperationIfNecessary s2 a mode src focus False))
                     else
                       (let (filtered, n) = filter_HoverResult (nextOid s1) cur a
                        in case setCurrentResult ed (s1\<lparr>nextOid := n\<rparr>) (Some filtered) of
                             Inl e \<Rightarrow> Inl e
                           | Inr s2 \<Rightarrow>
                               Inr (True, startHoverOperationIfNecessary s2 a mode src focus False))))
      | _ \<Rightarrow>
          (case anc of
             Some a \<Rightarrow> Inr (True, startHoverOperationIfNecessary s a mode src focus False)
           | None \<Rightarrow> Inr (False, s)))"

text \<open>The anchors the participants suggest for a mouse event, in participant order.\<close>

fun suggestedAnchors :: "IEditorHoverParticipant list \<Rightarrow> IEditorMouseEvent \<Rightarrow> HoverAnchor list" where
  "suggestedAnchors [] me = []"
| "suggestedAnchors (p # ps) me =
     (case suggestHoverAnchor p of
        None \<Rightarrow> suggestedAnchors ps me
      | Some suggest \<Rightarrow>
          (case suggest me of
             None \<Rightarrow> suggestedAnchors ps me
           | Some a \<Rightarrow> a # suggestedAnchors ps me))"

text \<open>
  \<^verbatim>\<open>maybeShowAt(mouseEvent)\<close>. The candidates are sorted by descending priority with a
  stable sort and the first one is taken.
\<close>

definition maybeShowAt ::
  "(HoverAnchor \<Rightarrow> HoverAnchor \<Rightarrow> Position \<Rightarrow> bool) \<Rightarrow> ICodeEditor \<Rightarrow> ContentHoverController \<Rightarrow>
   IEditorMouseEvent \<Rightarrow> error + (bool \<times> ContentHoverController)" where
  "maybeShowAt canAdopt ed s me =
     (let c0 = suggestedAnchors (participants s) me;
          c1 = c0 @ (if target_type me = CONTENT_TEXT
                     then [HoverRangeAnchor 0 (target_range me) (Some (posx me)) (Some (posy me))]
                     else []);
          c2 = c1 @ (if target_type me = CONTENT_EMPTY
                     then (let epsilon = typicalHalfwidthCharacterWidth ed / 2
                           in if \<not> isAfterLines me
                                 \<and> (case horizontalDistanceToText me of
                                       None \<Rightarrow> False
                                     | Some d \<Rightarrow> d < epsilon)
                              then [HoverRangeAnchor 0 (target_range me)
                                      (Some (posx me)) (Some (posy me))]
                              else [])
                     else [])
      in case sort_key (\<lambda>a. - priority a) c2 of
           [] \<Rightarrow> startShowingOrUpdateHover canAdopt ed s None Delayed Mouse False (Some me)
         | a # _ \<Rightarrow> startShowingOrUpdateHover canAdopt ed s (Some a) Delayed Mouse False (Some me))"

text \<open>\<^verbatim>\<open>startShowingAtRange(range, mode, source, focus)\<close>: the returned flag is dropped.\<close>

definition startShowingAtRange ::
  "(HoverAnchor \<Rightarrow> HoverAnchor \<Rightarrow> Position \<Rightarrow> bool) \<Rightarrow> ICodeEditor \<Rightarrow> ContentHoverController \<Rightarrow>
   Range \<Rightarrow> HoverStartMode \<Rightarrow> HoverStartSource \<Rightarrow> bool \<Rightarrow> error + ContentHoverController" where
  "startShowingAtRange canAdopt ed s r mode src focus =
     (case startShowingOrUpdateHover canAdopt ed s (Some (HoverRangeAnchor 0 r None None))
             mode src focus None of
        Inl e \<Rightarrow> Inl e
      | Inr (b, s') \<Rightarrow> Inr s')"

text \<open>\<^verbatim>\<open>hide()\<close>\<close>

definition hide :: "ICodeEditor \<Rightarrow> ContentHoverController \<Rightarrow> error + ContentHoverController" where
  "hide ed s =
     setCurrentResult ed
       (s\<lparr>computer := (computer s)\<lparr>c_anchor := None\<rparr>,
          hoverOperation := hoverOperation s @ [OpCancel]\<rparr>)
       None"

text \<open>\<^verbatim>\<open>_addLoadingMessage(result)\<close>: the first loading message a participant creates.\<close>

fun firstLoadingMessage :: "IEditorHoverParticipant list \<Rightarrow> HoverAnchor \<Rightarrow> IHoverPart option" where
  "firstLoadingMessage [] anc = None"
| "firstLoadingMessage (p # ps) anc =
     (case createLoadingMessage p of
        None \<Rightarrow> firstLoadingMessage ps anc
      | Some create \<Rightarrow>
          (case create anc of
             None \<Rightarrow> firstLoadingMessage ps anc
           | Some loadingMessage \<Rightarrow> Some loadingMessage))"

definition addLoadingMessage :: "ContentHoverController \<Rightarrow> IHoverPart list \<Rightarrow> IHoverPart list" where
  "addLoadingMessage s result =
     (case c_anchor (computer s) of
        None \<Rightarrow> result
      | Some anc \<Rightarrow>
          (case firstLoadingMessage (participants s) anc of
             None \<Rightarrow> result
           | Some loadingMessage \<Rightarrow> result @ [loadingMessage]))"

text \<open>\<^verbatim>\<open>_withResult(hoverResult)\<close>\<close>

definition withResult ::
  "ICodeEditor \<Rightarrow> ContentHoverController \<Rightarrow> HoverResult \<Rightarrow> error + ContentHoverController" where
  "withResult ed s hoverResult =
     (if widget_position (widget s) \<noteq> None
         \<and> (case currentResult s of None \<Rightarrow> False | Some cur \<Rightarrow> isComplete cur)
      then
        (if \<not> isComplete hoverResult then Inr s
         else if c_insistOnKeepingHoverVisible (computer s) \<and> length (messages hoverResult) = 0
         then Inr s
         else setCurrentResult ed s (Some hoverResult))
      else setCurrentResult ed s (Some hoverResult))"

text \<open>
  The result event of the hover operation and the handler the constructor registers
  for it. The handler allocates a new \<^verbatim>\<open>HoverResult\<close>.
\<close>

record HoverOperationResult =
  res_value :: "IHoverPart list"
  res_isComplete :: bool
  hasLoadingMessage :: bool

definition onResult_messages :: "ContentHoverController \<Rightarrow> HoverOperationResult \<Rightarrow> IHoverPart list" where
  "onResult_messages s res =
     (if hasLoadingMessage res then addLoadingMessage s (res_value res) else res_value res)"

definition onResult ::
  "ICodeEditor \<Rightarrow> ContentHoverController \<Rightarrow> HoverOperationResult \<Rightarrow> error + ContentHoverController" where
  "onResult ed s res =
     (case c_anchor (computer s) of
        None \<Rightarrow> Inr s
      | Some anc \<Rightarrow>
          (let msgs = onResult_messages s res
           in withResult ed (s\<lparr>nextOid := Suc (nextOid s)\<rparr>)
                (HoverResult (nextOid s) anc msgs (res_isComplete res))))"

text \<open>The handler of \<^verbatim>\<open>TokenizationRegistry.onDidChange\<close>.\<close>

definition onTokenizationChange ::
  "ICodeEditor \<Rightarrow> ContentHoverController \<Rightarrow> error + ContentHoverController" where
  "onTokenizationChange ed s =
     (if widget_position (widget s) \<noteq> None \<and> currentResult s \<noteq> None
      then setCurrentResult ed (s\<lparr>widget := widget_clear (widget s)\<rparr>) (currentResult s)
      else Inr s)"

subsection \<open>The controller as a state machine\<close>

text \<open>
  Everything that makes the controller act: the two public triggers, \<open>hide\<close> (also the
  Escape key and the render context's \<open>hide\<close>), a result of the hover operation, and a
  tokenization change.
\<close>

datatype event =
    MaybeShowAt IEditorMouseEvent
  | StartShowingAtRange Range HoverStartMode HoverStartSource bool
  | Hide
  | OperationResult HoverOperationResult
  | TokenizationChange

fun step ::
  "(HoverAnchor \<Rightarrow> HoverAnchor \<Rightarrow> Position \<Rightarrow> bool) \<Rightarrow> ICodeEditor \<Rightarrow> ContentHoverController \<Rightarrow>
   event \<Rightarrow> error + ContentHoverController" where
  "step canAdopt ed s (MaybeShowAt me) =
     (case maybeShowAt canAdopt ed s me of Inl e \<Rightarrow> Inl e | Inr (b, s') \<Rightarrow> Inr s')"
| "step canAdopt ed s (StartShowingAtRange r mode src focus) =
     startShowingAtRange canAdopt ed s r mode src focus"
| "step canAdopt ed s Hide = hide ed s"
| "step canAdopt ed s (OperationResult res) = onResult ed s res"
| "step canAdopt ed s TokenizationChange = onTokenizationChange ed s"

text \<open>
  The states the controller can be in: the constructed one, and every state an event
  leads to, whatever the editor looks like when the event arrives.
\<close>

inductive reachable ::
  "(HoverAnchor \<Rightarrow> HoverAnchor \<Rightarrow> Position \<Rightarrow> bool) \<Rightarrow> IEditorHoverParticipant list \<Rightarrow>
   ContentHoverController \<Rightarrow> bool"
  for canAdopt :: "HoverAnchor \<Rightarrow> HoverAnchor \<Rightarrow> Position \<Rightarrow> bool"
  and registry :: "IEditorHoverParticipant list" where
  reachable_new: "reachable canAdopt registry (ContentHoverController_new registry)"
| reachable_step:
    "reachable canAdopt registry s \<Longrightarrow> step canAdopt ed s e = Inr s' \<Longrightarrow>
     reachable canAdopt registry s'"

subsection \<open>Notions the properties are stated with\<close>

text \<open>The invariant of the current result: when there is one, it has a message.\<close>

definition currentResultNonEmpty :: "ContentHoverController \<Rightarrow> bool" where
  "currentResultNonEmpty s =
     (case currentResult s of None \<Rightarrow> True | Some r \<Rightarrow> messages r \<noteq> [])"

text \<open>
  What the overlay displays: the children of its contents node and its visible data,
  apart from the three fields in which \<^verbatim>\<open>isMouseGettingCloser\<close> tracks the mouse.
\<close>

definition displayed :: "ContentHoverWidget \<Rightarrow> string list \<times> ContentHoverVisibleData option" where
  "displayed w =
     (contentsDomNode w,
      map_option (\<lambda>vd. vd\<lparr>vd_initialMousePosX := None, vd_initialMousePosY := None,
                          closestMouseDistance := None\<rparr>) (visibleData w))"

text \<open>A sequence of events, each arriving at the same editor.\<close>

fun run ::
  "(HoverAnchor \<Rightarrow> HoverAnchor \<Rightarrow> Position \<Rightarrow> bool) \<Rightarrow> ICodeEditor \<Rightarrow> ContentHoverController \<Rightarrow>
   event list \<Rightarrow> error + ContentHoverController" where
  "run canAdopt ed s [] = Inr s"
| "run canAdopt ed s (e # es) =
     (case step canAdopt ed s e of Inl err \<Rightarrow> Inl err | Inr s' \<Rightarrow> run canAdopt ed s' es)"

text \<open>The highlight range of a call of \<open>computeHoverRanges\<close>, if it returns.\<close>

definition highlightOf :: "error + HoverRanges \<Rightarrow> Range option" where
  "highlightOf res = (case res of Inl e \<Rightarrow> None | Inr ranges \<Rightarrow> Some (highlightRange ranges))"

text \<open>
  What an operation of the controller may do to the current result: keep it, clear it,
  or store a result that has a message. The participants stay as they are.
\<close>

definition resultStep :: "ContentHoverController \<Rightarrow> ContentHoverController \<Rightarrow> bool" where
  "resultStep s s' =
     (participants s' = participants s \<and>
      (currentResult s' = currentResult s \<or> currentResult s' = None \<or>
       (\<exists>x. currentResult s' = Some x \<and> messages x \<noteq> [])))"

text \<open>
  Object identities are given in increasing order. An object is allocated before the
  counter reaches \<open>n\<close> when its identity, and those of the originals it holds, are
  below \<open>n\<close>.
\<close>

fun allocatedBefore :: "nat \<Rightarrow> HoverResult \<Rightarrow> bool" where
  "allocatedBefore n (HoverResult i a ms c) = (i < n)"
| "allocatedBefore n (FilteredHoverResult i orig a ms c) = (i < n \<and> allocatedBefore n orig)"

definition currentResultAllocated :: "ContentHoverController \<Rightarrow> bool" where
  "currentResultAllocated s =
     (case currentResult s of None \<Rightarrow> True | Some r \<Rightarrow> allocatedBefore (nextOid s) r)"

text \<open>The overlay is hidden whenever there is no current result.\<close>

definition hiddenWithoutResult :: "ContentHoverController \<Rightarrow> bool" where
  "hiddenWithoutResult s =
     (case currentResult s of None \<Rightarrow> visibleData (widget s) = None | Some r \<Rightarrow> True)"

subsection \<open>Example data\<close>

text \<open>
  A validity rule for the example parts: a part is valid for a range anchor whose
  column span lies inside the part's.
\<close>

definition ex_coversAnchor :: "Range \<Rightarrow> HoverAnchor \<Rightarrow> bool" where
  "ex_coversAnchor r a =
     (anchor_type a = Range \<and> startColumn r \<le> startColumn (anchor_range a)
      \<and> endColumn (anchor_range a) \<le> endColumn r)"

definition ex_range :: "int \<Rightarrow> int \<Rightarrow> int \<Rightarrow> Range" where
  "ex_range l c1 c2 = \<lparr>startLineNumber = l, startColumn = c1, endLineNumber = l, endColumn = c2\<rparr>"

definition ex_part :: "nat \<Rightarrow> Range \<Rightarrow> IHoverPart" where
  "ex_part p r =
     \<lparr>owner = p, part_range = r, forceShowAtRange = False, isBeforeContent = False,
      isValidForHoverAnchor = ex_coversAnchor r\<rparr>"

text \<open>Two range anchors on line 4: columns 3 to 3 and columns 2 to 2.\<close>

definition ex_anchorA :: HoverAnchor where
  "ex_anchorA = HoverRangeAnchor 0 (ex_range 4 3 3) (Some 10) (Some 10)"

definition ex_anchorB :: HoverAnchor where
  "ex_anchorB = HoverRangeAnchor 0 (ex_range 4 2 2) (Some 20) (Some 20)"

text \<open>
  A complete result for the first anchor with two parts, and what its filter returns
  for the second anchor, for which only the first part is valid.
\<close>

definition ex_original :: HoverResult where
  "ex_original =
     HoverResult 0 ex_anchorA [ex_part 0 (ex_range 4 1 9), ex_part 1 (ex_range 4 3 9)] True"

definition ex_filtered :: HoverResult where
  "ex_filtered = FilteredHoverResult 1 ex_original ex_anchorA [ex_part 0 (ex_range 4 1 9)] True"

text \<open>An editor without a model; the widget's node is a square of 100 pixels at the origin.\<close>

definition ex_editorNoModel :: ICodeEditor where
  "ex_editorNoModel =
     \<lparr>getModel = None, hover_sticky = True, hover_above = False,
      typicalHalfwidthCharacterWidth = 8,
      widgetPagePosition = \<lparr>rect_left = 0, rect_top = 0, rect_width = 100, rect_height = 100\<rparr>\<rparr>"

text \<open>
  A model of ten lines with two decorations on line 4, one whole-line and one restricted
  to columns 1 to 2.
\<close>

definition ex_wholeLine :: IModelDecoration where
  "ex_wholeLine = \<lparr>deco_range = ex_range 4 1 1, isWholeLine = True, showIfCollapsed = False\<rparr>"

definition ex_cols12 :: IModelDecoration where
  "ex_cols12 = \<lparr>deco_range = ex_range 4 1 2, isWholeLine = False, showIfCollapsed = False\<rparr>"

definition ex_model :: ITextModel where
  "ex_model =
     \<lparr>getLineCount = 10,
      getLineMaxColumn = (\<lambda>l. 20),
      getLineDecorations = (\<lambda>l. if l = 4 then [ex_wholeLine, ex_cols12] else []),
      convertModelRangeToViewRange = (\<lambda>r. r),
      getLineMinColumn = (\<lambda>l. 1),
      convertViewPositionToModelPosition = (\<lambda>p. p)\<rparr>"

definition ex_editor :: ICodeEditor where
  "ex_editor = ex_editorNoModel\<lparr>getModel := Some ex_model\<rparr>"

text \<open>
  Two participants: the first (ordinal 0) computes one part, the second (ordinal 1) an
  undefined entry and one part. They are registered in the opposite order.
\<close>

definition ex_P1 :: IEditorHoverParticipant where
  "ex_P1 =
     \<lparr>pid = 0, hoverOrdinal = 0, suggestHoverAnchor = None,
      p_computeSync = (\<lambda>a ds. [Some (ex_part 0 (ex_range 4 1 9))]),
      createLoadingMessage = None,
      renderHoverParts =
        (\<lambda>ps. \<lparr>nodes = [''first''], statusBarContent = False, setsColorPicker = False\<rparr>)\<rparr>"

definition ex_P2 :: IEditorHoverParticipant where
  "ex_P2 =
     \<lparr>pid = 1, hoverOrdinal = 1, suggestHoverAnchor = None,
      p_computeSync = (\<lambda>a ds. [None, Some (ex_part 1 (ex_range 4 3 9))]),
      createLoadingMessage = None,
      renderHoverParts =
        (\<lambda>ps. \<lparr>nodes = [''second''], statusBarContent = False, setsColorPicker = False\<rparr>)\<rparr>"

definition ex_registry :: "IEditorHoverParticipant list" where
  "ex_registry = [ex_P2, ex_P1]"

text \<open>An anchor compatibility rule for the examples: every anchor can adopt the visible hover.\<close>

definition ex_canAdopt :: "HoverAnchor \<Rightarrow> HoverAnchor \<Rightarrow> Position \<Rightarrow> bool" where
  "ex_canAdopt a lastAnchor showAt = True"

text \<open>The state after \<^verbatim>\<open>startShowingAtRange\<close> at columns 3 to 3 of line 4 on a new controller.\<close>

definition ex_started :: ContentHoverController where
  "ex_started =
     (ContentHoverController_new ex_registry)
       \<lparr>computer := \<lparr>c_anchor = Some (HoverRangeAnchor 0 (ex_range 4 3 3) None None),
                     c_shouldFocus = False, c_source = Keyboard,
                     c_insistOnKeepingHoverVisible = False\<rparr>,
        hoverOperation := [OpCancel, OpStart Immediate]\<rparr>"

text \<open>
  A scenario. The mouse rests on columns 3 to 3 of line 4, and an incomplete result with
  one part arrives; then the mouse moves to columns 2 to 2, towards the hover.
\<close>

definition ex_mouseA :: IEditorMouseEvent where
  "ex_mouseA =
     \<lparr>target_type = CONTENT_TEXT, target_range = ex_range 4 3 3, isAfterLines = False,
      horizontalDistanceToText = None, posx = 10, posy = 10\<rparr>"

definition ex_mouseB :: IEditorMouseEvent where
  "ex_mouseB =
     \<lparr>target_type = CONTENT_TEXT, target_range = ex_range 4 2 2, isAfterLines = False,
      horizontalDistanceToText = None, posx = 20, posy = 20\<rparr>"

definition ex_partial :: HoverOperationResult where
  "ex_partial =
     \<lparr>res_value = [ex_part 0 (ex_range 4 1 9)], res_isComplete = False, hasLoadingMessage = False\<rparr>"

definition ex_complete :: HoverOperationResult where
  "ex_complete =
     \<lparr>res_value = [ex_part 0 (ex_range 4 1 9)], res_isComplete = True, hasLoadingMessage = False\<rparr>"

definition ex_emptyComplete :: HoverOperationResult where
  "ex_emptyComplete = \<lparr>res_value = [], res_isComplete = True, hasLoadingMessage = False\<rparr>"

text \<open>
  The states of the scenario: the hover shows the incomplete result (\<open>ex_shownPartial\<close>)
  or the same result complete (\<open>ex_shownComplete\<close>); after the move towards the hover an
  operation runs at the second anchor, insisting on keeping the hover visible
  (\<open>ex_insisting\<close>, \<open>ex_insistingComplete\<close>).
\<close>

definition ex_visibleData :: ContentHoverVisibleData where
  "ex_visibleData =
     \<lparr>colorPicker = False,
      showAtPosition = \<lparr>lineNumber = 4, column = 3\<rparr>,
      showAtSecondaryPosition = \<lparr>lineNumber = 4, column = 1\<rparr>,
      preferAbove = False, stoleFocus = False, vd_source = Mouse, vd_isBeforeContent = False,
      vd_initialMousePosX = Some 10, vd_initialMousePosY = Some 10,
      closestMouseDistance = None,
      highlight = ex_range 4 1 9\<rparr>"

definition ex_shown :: "bool \<Rightarrow> ContentHoverController" where
  "ex_shown cpl =
     (ContentHoverController_new ex_registry)
       \<lparr>widget := \<lparr>visibleData = Some ex_visibleData, contentsDomNode = [''first'']\<rparr>,
        computer := \<lparr>c_anchor = Some ex_anchorA, c_shouldFocus = False, c_source = Mouse,
                     c_insistOnKeepingHoverVisible = False\<rparr>,
        hoverOperation := [OpCancel, OpStart Delayed],
        currentResult := Some (HoverResult 0 ex_anchorA [ex_part 0 (ex_range 4 1 9)] cpl),
        nextOid := 1\<rparr>"

definition ex_shownPartial :: ContentHoverController where
  "ex_shownPartial = ex_shown False"

definition ex_shownComplete :: ContentHoverController where
  "ex_shownComplete = ex_shown True"

definition ex_moved :: "bool \<Rightarrow> ContentHoverController" where
  "ex_moved cpl =
     (ex_shown cpl)
       \<lparr>widget := \<lparr>visibleData = Some (ex_visibleData\<lparr>closestMouseDistance := Some 0\<rparr>),
                   contentsDomNode = [''first'']\<rparr>,
        computer := \<lparr>c_anchor = Some ex_anchorB, c_shouldFocus = False, c_source = Mouse,
                     c_insistOnKeepingHoverVisible = True\<rparr>,
        hoverOperation := [OpCancel, OpStart Delayed, OpCancel, OpStart Delayed]\<rparr>"

definition ex_insisting :: ContentHoverController where
  "ex_insisting = ex_moved False"

definition ex_insistingComplete :: ContentHoverController where
  "ex_insistingComplete = ex_moved True"

section \<open>Properties\<close>

lemmas ex_defs =
  ex_coversAnchor_def ex_range_def ex_part_def ex_anchorA_def ex_anchorB_def
  ex_original_def ex_filtered_def HoverRangeAnchor_def

subsection \<open>Ranges\<close>

lemma encloses_refl: "encloses r r"
  by (simp add: encloses_def isBeforeOrEqual_def)

lemma encloses_trans: "encloses a b \<Longrightarrow> encloses b c \<Longrightarrow> encloses a c"
  by (auto simp: encloses_def isBeforeOrEqual_def getStartPosition_def getEndPosition_def)

lemma encloses_antisym: "encloses a b \<Longrightarrow> encloses b a \<Longrightarrow> a = b"
  by (cases a, cases b)
     (auto simp: encloses_def isBeforeOrEqual_def getStartPosition_def getEndPosition_def)

lemma plusRange_encloses_left: "encloses (plusRange a b) a"
  by (auto simp: encloses_def isBeforeOrEqual_def getStartPosition_def getEndPosition_def
        plusRange_def)

lemma plusRange_encloses_right: "encloses (plusRange a b) b"
  by (auto simp: encloses_def isBeforeOrEqual_def getStartPosition_def getEndPosition_def
        plusRange_def)

lemma plusRange_least: "encloses r a \<Longrightarrow> encloses r b \<Longrightarrow> encloses r (plusRange a b)"
  by (auto simp: encloses_def isBeforeOrEqual_def getStartPosition_def getEndPosition_def
        plusRange_def)

lemma plusRange_idem: "plusRange r r = r"
  by (simp add: plusRange_def)

lemma foldl_plusRange_encloses_init: "encloses (foldl plusRange r rs) r"
proof (induction rs arbitrary: r)
  case Nil
  show ?case by (simp add: encloses_refl)
next
  case (Cons x xs)
  have "encloses (foldl plusRange (plusRange r x) xs) (plusRange r x)" by (rule Cons.IH)
  then show ?case using plusRange_encloses_left encloses_trans by fastforce
qed

lemma foldl_plusRange_encloses_elem: "x \<in> set rs \<Longrightarrow> encloses (foldl plusRange r rs) x"
proof (induction rs arbitrary: r)
  case Nil
  then show ?case by simp
next
  case (Cons y ys)
  show ?case
  proof (cases "x = y")
    case True
    have "encloses (foldl plusRange (plusRange r y) ys) (plusRange r y)"
      by (rule foldl_plusRange_encloses_init)
    then show ?thesis using True plusRange_encloses_right encloses_trans by fastforce
  next
    case False
    then have "x \<in> set ys" using Cons.prems by simp
    then show ?thesis using Cons.IH by simp
  qed
qed

lemma foldl_plusRange_least:
  "encloses b r \<Longrightarrow> (\<forall>x\<in>set rs. encloses b x) \<Longrightarrow> encloses b (foldl plusRange r rs)"
  by (induction rs arbitrary: r) (simp_all add: plusRange_least)

subsection \<open>Filtering a hover result\<close>

lemma filter_length_eq: "length (filter P xs) = length xs \<Longrightarrow> filter P xs = xs"
proof (induction xs)
  case Nil
  show ?case by simp
next
  case (Cons x xs)
  have le: "length (filter P xs) \<le> length xs" by (rule length_filter_le)
  show ?case
  proof (cases "P x")
    case True
    with Cons show ?thesis by simp
  next
    case False
    with Cons.prems le show ?thesis by simp
  qed
qed

lemma unfiltered_idem: "unfiltered (unfiltered r) = unfiltered r"
  by (induction r) simp_all

lemma filter_HoverResult_messages:
  "messages (fst (filter_HoverResult n r anc)) = validParts (messages (unfiltered r)) anc"
proof (induction r)
  case (HoverResult i a ms c)
  show ?case by (auto simp: validParts_def Let_def dest: filter_length_eq)
next
  case (FilteredHoverResult i orig a ms c)
  then show ?case by simp
qed

lemma filter_HoverResult_unfiltered:
  "unfiltered (fst (filter_HoverResult n r anc)) = unfiltered r"
  by (induction r) (simp_all add: Let_def)

text \<open>
  C2: filtering a result by one anchor and the outcome by a second anchor gives the same
  parts as filtering the original unfiltered result by the second anchor alone, namely
  the parts of the original that are valid for the second anchor. Nothing is lost by
  the first filter, whatever object identities the allocations give.
\<close>

theorem filter_twice_same_parts:
  "messages (fst (filter_HoverResult n2 (fst (filter_HoverResult n1 r a1)) a2))
     = messages (fst (filter_HoverResult n3 (unfiltered r) a2))
   \<and> messages (fst (filter_HoverResult n2 (fst (filter_HoverResult n1 r a1)) a2))
     = validParts (messages (unfiltered r)) a2"
  by (simp add: filter_HoverResult_messages filter_HoverResult_unfiltered unfiltered_idem)

theorem filter_twice_same_parts_witness:
  "messages (fst (filter_HoverResult 1 ex_original ex_anchorB)) = [ex_part 0 (ex_range 4 1 9)]
   \<and> messages (fst (filter_HoverResult 2 (fst (filter_HoverResult 1 ex_original ex_anchorB))
                        ex_anchorA))
     = [ex_part 0 (ex_range 4 1 9), ex_part 1 (ex_range 4 3 9)]"
  using filter_twice_same_parts [of 2 1 ex_original ex_anchorB ex_anchorA 0]
  by (simp add: ex_defs validParts_def)






subsection \<open>The highlight range\<close>

lemma computeHoverRanges_loop_highlight:
  "\<exists>c' f'. computeHoverRanges_loop b l msgs (c, hl, f)
            = (c', foldl plusRange hl (map part_range msgs), f')"
  by (induction msgs arbitrary: c hl f) simp_all

lemma highlightOf_computeHoverRanges:
  "highlightOf (computeHoverRanges ed anchorRange msgs) = rangeUnion (map part_range msgs)"
proof (cases msgs)
  case Nil
  then show ?thesis by (simp add: highlightOf_def computeHoverRanges_def)
next
  case (Cons m0 ms)
  obtain c f where loop:
    "computeHoverRanges_loop (startColumnBoundary ed anchorRange) (startLineNumber anchorRange)
       (m0 # ms) (startColumn anchorRange, part_range m0, None)
     = (c, foldl plusRange (part_range m0) (map part_range (m0 # ms)), f)"
    using computeHoverRanges_loop_highlight by blast
  show ?thesis
    unfolding Cons computeHoverRanges_def Let_def list.case loop
    by (simp add: highlightOf_def plusRange_idem)
qed

text \<open>
  C6, as the code has it: for a non-empty list of parts \<open>computeHoverRanges\<close> returns,
  and its highlight range is the union of the ranges of the parts, that is the smallest
  range enclosing every part's range: it encloses each of them, and every range that
  encloses each of them encloses it. The anchor's range takes no part in it.
\<close>

theorem highlight_is_union_of_parts:
  assumes "msgs \<noteq> []"
  shows "\<exists>h. highlightOf (computeHoverRanges ed anchorRange msgs) = Some h
           \<and> rangeUnion (map part_range msgs) = Some h
           \<and> (\<forall>m\<in>set msgs. encloses h (part_range m))
           \<and> (\<forall>b. (\<forall>m\<in>set msgs. encloses b (part_range m)) \<longrightarrow> encloses b h)"
proof -
  obtain m0 ms where msgs: "msgs = m0 # ms" using assms by (cases msgs) auto
  define h where "h = foldl plusRange (part_range m0) (map part_range ms)"
  have 0: "rangeUnion (map part_range msgs) = Some h"
    by (simp add: msgs h_def)
  have 1: "highlightOf (computeHoverRanges ed anchorRange msgs) = Some h"
    by (simp only: highlightOf_computeHoverRanges 0)
  have 2: "encloses h (part_range m)" if "m \<in> set msgs" for m
  proof (cases "m = m0")
    case True
    then show ?thesis unfolding h_def by (simp add: foldl_plusRange_encloses_init)
  next
    case False
    with that msgs have "part_range m \<in> set (map part_range ms)" by simp
    then show ?thesis unfolding h_def by (rule foldl_plusRange_encloses_elem)
  qed
  have 3: "encloses b h" if "\<forall>m\<in>set msgs. encloses b (part_range m)" for b
    unfolding h_def using that msgs by (intro foldl_plusRange_least) simp_all
  show ?thesis using 0 1 2 3 by blast
qed

theorem highlight_is_union_of_parts_witness:
  "[ex_part 0 (ex_range 4 5 7), ex_part 1 (ex_range 5 1 2)] \<noteq> []
   \<and> highlightOf (computeHoverRanges ex_editorNoModel (ex_range 4 3 3)
        [ex_part 0 (ex_range 4 5 7), ex_part 1 (ex_range 5 1 2)])
      = Some \<lparr>startLineNumber = 4, startColumn = 5, endLineNumber = 5, endColumn = 2\<rparr>"
  using highlight_is_union_of_parts [of "[ex_part 0 (ex_range 4 5 7), ex_part 1 (ex_range 5 1 2)]"
      ex_editorNoModel "ex_range 4 3 3"]
  by (simp add: ex_range_def ex_part_def plusRange_def)

text \<open>
  C6 as stated fails: for an anchor at columns 3 to 3 of line 4 and one part at columns
  5 to 7 of that line, the highlight range is the part's range, columns 5 to 7. The
  union with the anchor's range would be columns 3 to 7; the highlight does not even
  enclose the anchor's range.
\<close>

theorem highlight_leaves_anchor_out:
  "highlightOf (computeHoverRanges ex_editorNoModel (ex_range 4 3 3) [ex_part 0 (ex_range 4 5 7)])
     \<noteq> rangeUnion (ex_range 4 3 3 # map part_range [ex_part 0 (ex_range 4 5 7)])
   \<and> highlightOf (computeHoverRanges ex_editorNoModel (ex_range 4 3 3) [ex_part 0 (ex_range 4 5 7)])
     = Some (ex_range 4 5 7)
   \<and> rangeUnion (ex_range 4 3 3 # map part_range [ex_part 0 (ex_range 4 5 7)])
     = Some (ex_range 4 3 7)
   \<and> \<not> encloses (ex_range 4 5 7) (ex_range 4 3 3)"
  by (simp add: highlightOf_computeHoverRanges ex_range_def ex_part_def plusRange_def
        encloses_def isBeforeOrEqual_def getStartPosition_def getEndPosition_def)

subsection \<open>The hover computer\<close>

lemma lineDecorationFilter_qualifies:
  "lineDecorationFilter (startLineNumber (anchor_range anc))
     (getLineMaxColumn model (startLineNumber (anchor_range anc))) anc
   = qualifies model anc"
  by (rule ext) (auto simp: lineDecorationFilter_def qualifies_def columnSpanOnLine_def Let_def)

lemma computer_getLineDecorations_eq:
  "computer_getLineDecorations model anc =
     (if anchor_type anc \<noteq> Range \<and> \<not> supportsMarkerHover anc then []
      else if startLineNumber (anchor_range anc) > getLineCount model then []
      else filter (qualifies model anc)
             (getLineDecorations model (startLineNumber (anchor_range anc))))"
  by (simp add: computer_getLineDecorations_def Let_def lineDecorationFilter_qualifies)

text \<open>
  C7: on a model that has no decorations beyond its last line, an anchor that is not a
  range anchor and does not support marker hover gets no decorations, whatever the
  line's decorations; every other anchor gets exactly the decorations of its line that
  qualify, in their order: a decoration of the line is among them iff it is whole-line,
  or its column span on the anchor's line covers the anchor's column span, with one
  column of tolerance on each side for a show-if-collapsed decoration. (For an anchor
  beyond the last line the computer returns before it reads the line's decorations.)
\<close>

theorem lineDecorations_qualify:
  assumes "\<forall>l. getLineCount model < l \<longrightarrow> getLineDecorations model l = []"
  shows "computer_getLineDecorations model anc =
           (if anchor_type anc \<noteq> Range \<and> \<not> supportsMarkerHover anc then []
            else filter (qualifies model anc)
                   (getLineDecorations model (startLineNumber (anchor_range anc))))
         \<and> (anchor_type anc = Range \<or> supportsMarkerHover anc \<longrightarrow>
              (\<forall>d. d \<in> set (computer_getLineDecorations model anc) \<longleftrightarrow>
                   d \<in> set (getLineDecorations model (startLineNumber (anchor_range anc)))
                   \<and> (isWholeLine d
                      \<or> (let lineNo = startLineNumber (anchor_range anc);
                              (lo, hi) = columnSpanOnLine lineNo (getLineMaxColumn model lineNo) d;
                              tolerance = (if showIfCollapsed d then 1 else 0)
                          in lo \<le> startColumn (anchor_range anc) + tolerance
                             \<and> endColumn (anchor_range anc) - tolerance \<le> hi))))"
proof -
  have eq: "computer_getLineDecorations model anc =
           (if anchor_type anc \<noteq> Range \<and> \<not> supportsMarkerHover anc then []
            else filter (qualifies model anc)
                   (getLineDecorations model (startLineNumber (anchor_range anc))))"
    using assms by (simp add: computer_getLineDecorations_eq)
  have q: "qualifies model anc d =
             (isWholeLine d
              \<or> (let lineNo = startLineNumber (anchor_range anc);
                      (lo, hi) = columnSpanOnLine lineNo (getLineMaxColumn model lineNo) d;
                      tolerance = (if showIfCollapsed d then 1 else 0)
                  in lo \<le> startColumn (anchor_range anc) + tolerance
                     \<and> endColumn (anchor_range anc) - tolerance \<le> hi))" for d
    by (simp add: qualifies_def Let_def split: prod.splits)
  show ?thesis
  proof (intro conjI impI allI)
    show "computer_getLineDecorations model anc =
           (if anchor_type anc \<noteq> Range \<and> \<not> supportsMarkerHover anc then []
            else filter (qualifies model anc)
                   (getLineDecorations model (startLineNumber (anchor_range anc))))"
      by (rule eq)
  next
    fix d
    assume "anchor_type anc = Range \<or> supportsMarkerHover anc"
    then have "computer_getLineDecorations model anc
                 = filter (qualifies model anc)
                     (getLineDecorations model (startLineNumber (anchor_range anc)))"
      using eq by auto
    then show "d \<in> set (computer_getLineDecorations model anc) \<longleftrightarrow>
                   d \<in> set (getLineDecorations model (startLineNumber (anchor_range anc)))
                   \<and> (isWholeLine d
                      \<or> (let lineNo = startLineNumber (anchor_range anc);
                              (lo, hi) = columnSpanOnLine lineNo (getLineMaxColumn model lineNo) d;
                              tolerance = (if showIfCollapsed d then 1 else 0)
                          in lo \<le> startColumn (anchor_range anc) + tolerance
                             \<and> endColumn (anchor_range anc) - tolerance \<le> hi))"
      using q [of d] by simp
  qed
qed

theorem lineDecorations_qualify_witness:
  "getLineDecorations ex_model 4 = [ex_wholeLine, ex_cols12]
   \<and> computer_getLineDecorations ex_model ex_anchorA = [ex_wholeLine]
   \<and> computer_getLineDecorations ex_model (ex_anchorA\<lparr>anchor_type := ForeignElement\<rparr>) = []"
proof -
  have wf: "\<forall>l. getLineCount ex_model < l \<longrightarrow> getLineDecorations ex_model l = []"
    by (simp add: ex_model_def)
  show ?thesis
    using lineDecorations_qualify [OF wf, of ex_anchorA]
      lineDecorations_qualify [OF wf, of "ex_anchorA\<lparr>anchor_type := ForeignElement\<rparr>"]
    by (simp add: ex_defs ex_model_def ex_wholeLine_def ex_cols12_def qualifies_def
          columnSpanOnLine_def)
qed

lemma computeSync_loop_concat:
  "computeSync_loop ps anc decs acc = acc @ concat (map (\<lambda>p. p_computeSync p anc decs) ps)"
  by (induction ps arbitrary: acc) simp_all

subsection \<open>Starting an operation\<close>

text \<open>
  C3: when the computer's anchor equals the requested one, starting an operation changes
  nothing: no call reaches the hover operation (neither cancel nor start), and the
  computer keeps its anchor, focus flag, source and insist flag.
\<close>

theorem start_at_equal_anchor_is_noop:
  assumes "c_anchor (computer s) = Some a0" and "equals a0 anc"
  shows "startHoverOperationIfNecessary s anc mode src focus insist = s"
  using assms by (simp add: startHoverOperationIfNecessary_def)

theorem start_at_equal_anchor_is_noop_witness:
  "c_anchor (computer ex_started) = Some (HoverRangeAnchor 0 (ex_range 4 3 3) None None)
   \<and> equals (HoverRangeAnchor 0 (ex_range 4 3 3) None None) ex_anchorA
   \<and> startHoverOperationIfNecessary ex_started ex_anchorA Delayed Mouse True True = ex_started"
proof -
  have 1: "c_anchor (computer ex_started) = Some (HoverRangeAnchor 0 (ex_range 4 3 3) None None)"
    by (simp add: ex_started_def)
  have 2: "equals (HoverRangeAnchor 0 (ex_range 4 3 3) None None) ex_anchorA"
    by (simp add: equals_def ex_defs)
  show ?thesis
    using start_at_equal_anchor_is_noop [OF 1 2, of Delayed Mouse True True] 1 2 by simp
qed

subsection \<open>Every operation returns and keeps the current result non-empty\<close>

lemma resultStep_refl: "resultStep s s"
  by (simp add: resultStep_def)

lemma resultStep_trans: "resultStep s s1 \<Longrightarrow> resultStep s1 s2 \<Longrightarrow> resultStep s s2"
  by (auto simp: resultStep_def)

lemma resultStep_invariant:
  "resultStep s s' \<Longrightarrow> currentResultNonEmpty s \<Longrightarrow> currentResultNonEmpty s'"
  by (auto simp: resultStep_def currentResultNonEmpty_def split: option.splits)

lemma resultStep_widget: "resultStep s (s\<lparr>widget := w\<rparr>)"
  by (simp add: resultStep_def)

lemma resultStep_nextOid: "resultStep s (s\<lparr>nextOid := n\<rparr>)"
  by (simp add: resultStep_def)

lemma resultStep_start: "resultStep s (startHoverOperationIfNecessary s anc mode src focus insist)"
  by (simp add: resultStep_def startHoverOperationIfNecessary_def)

lemma computeHoverRanges_nonempty:
  "msgs \<noteq> [] \<Longrightarrow> \<exists>ranges. computeHoverRanges ed r msgs = Inr ranges"
  by (cases msgs) (simp_all add: computeHoverRanges_def Let_def split: prod.splits)

lemma computeHoverRanges_empty: "computeHoverRanges ed r [] = Inl TypeError"
  by (simp add: computeHoverRanges_def)

lemma renderMessages_nonempty:
  assumes "msgs \<noteq> []"
  shows "\<exists>s'. renderMessages ed s anc msgs = Inr s'
           \<and> participants s' = participants s \<and> currentResult s' = currentResult s
           \<and> computer s' = computer s \<and> hoverOperation s' = hoverOperation s
           \<and> nextOid s' = nextOid s"
proof -
  obtain ranges where r: "computeHoverRanges ed (anchor_range anc) msgs = Inr ranges"
    using computeHoverRanges_nonempty [OF assms] by blast
  show ?thesis by (simp add: renderMessages_def r Let_def)
qed

lemma renderMessages_empty: "renderMessages ed s anc [] = Inl TypeError"
  by (simp add: renderMessages_def computeHoverRanges_empty)

lemma setCurrentResult_returns:
  "\<exists>s'. setCurrentResult ed s hr = Inr s' \<and> resultStep s s'
        \<and> computer s' = computer s \<and> hoverOperation s' = hoverOperation s
        \<and> nextOid s' = nextOid s"
proof (cases "sameObject (currentResult s) hr")
  case True
  then show ?thesis by (simp add: setCurrentResult_def resultStep_refl)
next
  case notSame: False
  show ?thesis
  proof (cases "\<exists>x. hr = Some x \<and> messages x \<noteq> []")
    case True
    then obtain x where x: "hr = Some x" "messages x \<noteq> []" by blast
    obtain s1 where s1:
      "renderMessages ed (s\<lparr>currentResult := Some x\<rparr>) (anchor x) (messages x) = Inr s1"
      "participants s1 = participants s" "currentResult s1 = Some x"
      "computer s1 = computer s" "hoverOperation s1 = hoverOperation s" "nextOid s1 = nextOid s"
      using renderMessages_nonempty [OF x(2), of ed "s\<lparr>currentResult := Some x\<rparr>" "anchor x"]
      by auto
    have "setCurrentResult ed s hr = Inr s1"
      using notSame x s1(1) by (simp add: setCurrentResult_def)
    then show ?thesis using s1 x by (simp add: resultStep_def)
  next
    case False
    then have "setCurrentResult ed s hr
                 = Inr (s\<lparr>currentResult := None, widget := widget_hide (widget s)\<rparr>)"
      using notSame by (cases hr) (auto simp: setCurrentResult_def)
    then show ?thesis by (simp add: resultStep_def)
  qed
qed

lemma set_then_start:
  assumes "resultStep s s0"
  shows "\<exists>s'. (case setCurrentResult ed s0 hr of
                Inl e \<Rightarrow> Inl e
              | Inr s2 \<Rightarrow> Inr (b, startHoverOperationIfNecessary s2 a mode src focus ins))
             = Inr (b, s') \<and> resultStep s s'"
proof -
  obtain s2 where s2: "setCurrentResult ed s0 hr = Inr s2" "resultStep s0 s2"
    using setCurrentResult_returns by blast
  have "resultStep s (startHoverOperationIfNecessary s2 a mode src focus ins)"
    using assms s2(2) resultStep_start resultStep_trans by blast
  then show ?thesis by (simp add: s2(1))
qed

lemma set_only:
  assumes "resultStep s s0"
  shows "\<exists>s'. (case setCurrentResult ed s0 hr of Inl e \<Rightarrow> Inl e | Inr s2 \<Rightarrow> Inr (b, s2))
             = Inr (b, s') \<and> resultStep s s'"
proof -
  obtain s2 where s2: "setCurrentResult ed s0 hr = Inr s2" "resultStep s0 s2"
    using setCurrentResult_returns by blast
  have "resultStep s s2" using assms s2(2) resultStep_trans by blast
  then show ?thesis by (simp add: s2(1))
qed

lemma startShowingOrUpdateHover_returns:
  "\<exists>b s'. startShowingOrUpdateHover canAdopt ed s anc mode src focus me = Inr (b, s')
          \<and> resultStep s s'"
proof (cases "widget_position (widget s)")
  case None
  then show ?thesis
    by (cases anc) (auto simp: startShowingOrUpdateHover_def resultStep_refl resultStep_start)
next
  case (Some pos)
  note pos = Some
  show ?thesis
  proof (cases "currentResult s")
    case None
    then show ?thesis using pos
      by (cases anc) (auto simp: startShowingOrUpdateHover_def resultStep_refl resultStep_start)
  next
    case (Some cur)
    obtain closer w1 where g: "isGettingCloser ed me (widget s) = (closer, w1)"
      by (cases "isGettingCloser ed me (widget s)")
    let ?s1 = "s\<lparr>widget := w1\<rparr>"
    have s1: "resultStep s ?s1" by (rule resultStep_widget)
    show ?thesis
    proof (cases closer)
      case True
      have "resultStep s (startHoverOperationIfNecessary ?s1 a mode src focus True)" for a
        using s1 resultStep_start resultStep_trans by blast
      then show ?thesis using pos Some g True s1
        by (cases anc) (auto simp: startShowingOrUpdateHover_def)
    next
      case False
      show ?thesis
      proof (cases anc)
        case None
        then show ?thesis using pos Some g False set_only [OF s1, where ed = ed and hr = None and b = False]
          by (auto simp: startShowingOrUpdateHover_def)
      next
        case a: (Some a)
        show ?thesis
        proof (cases "equals (anchor cur) a")
          case True
          then show ?thesis using pos Some g False a s1
            by (auto simp: startShowingOrUpdateHover_def)
        next
          case ne: False
          show ?thesis
          proof (cases "canAdopt a (anchor cur) pos")
            case False
            then show ?thesis
              using pos Some g \<open>\<not> closer\<close> a ne
                set_then_start [OF s1, where ed = ed and hr = None and b = True and a = a and mode = mode
                  and src = src and focus = focus and ins = False]
              by (auto simp: startShowingOrUpdateHover_def)
          next
            case True
            obtain filtered n where f: "filter_HoverResult (nextOid ?s1) cur a = (filtered, n)"
              by (cases "filter_HoverResult (nextOid ?s1) cur a")
            have "resultStep s (?s1\<lparr>nextOid := n\<rparr>)"
              using s1 resultStep_nextOid resultStep_trans by blast
            from set_then_start [OF this, where ed = ed and hr = "Some filtered" and b = True and a = a
                and mode = mode and src = src and focus = focus and ins = False]
            show ?thesis
              using pos Some g \<open>\<not> closer\<close> a ne True f
              by (auto simp: startShowingOrUpdateHover_def)
          qed
        qed
      qed
    qed
  qed
qed

lemma maybeShowAt_returns:
  "\<exists>b s'. maybeShowAt canAdopt ed s me = Inr (b, s') \<and> resultStep s s'"
  unfolding maybeShowAt_def Let_def
  by (simp add: startShowingOrUpdateHover_returns split: list.splits)

lemma startShowingAtRange_returns:
  "\<exists>s'. startShowingAtRange canAdopt ed s r mode src focus = Inr s' \<and> resultStep s s'"
proof -
  obtain b s' where
    "startShowingOrUpdateHover canAdopt ed s (Some (HoverRangeAnchor 0 r None None))
       mode src focus None = Inr (b, s')" "resultStep s s'"
    using startShowingOrUpdateHover_returns by blast
  then show ?thesis by (simp add: startShowingAtRange_def)
qed

lemma hide_returns: "\<exists>s'. hide ed s = Inr s' \<and> resultStep s s'"
proof -
  let ?s0 = "s\<lparr>computer := (computer s)\<lparr>c_anchor := None\<rparr>,
               hoverOperation := hoverOperation s @ [OpCancel]\<rparr>"
  have 0: "resultStep s ?s0" by (simp add: resultStep_def)
  obtain s' where s': "setCurrentResult ed ?s0 None = Inr s'" "resultStep ?s0 s'"
    using setCurrentResult_returns by blast
  have "resultStep s s'" by (rule resultStep_trans [OF 0 s'(2)])
  then show ?thesis using s'(1) by (simp add: hide_def)
qed

lemma withResult_returns: "\<exists>s'. withResult ed s hr = Inr s' \<and> resultStep s s'"
proof -
  obtain s' where "setCurrentResult ed s (Some hr) = Inr s'" "resultStep s s'"
    using setCurrentResult_returns by blast
  then show ?thesis by (auto simp: withResult_def resultStep_refl)
qed

lemma onResult_returns: "\<exists>s'. onResult ed s res = Inr s' \<and> resultStep s s'"
proof (cases "c_anchor (computer s)")
  case None
  then show ?thesis by (simp add: onResult_def resultStep_refl)
next
  case (Some anc)
  let ?s0 = "s\<lparr>nextOid := Suc (nextOid s)\<rparr>"
  obtain s' where s':
    "withResult ed ?s0 (HoverResult (nextOid s) anc (onResult_messages s res) (res_isComplete res))
       = Inr s'" "resultStep ?s0 s'"
    using withResult_returns by blast
  have "resultStep s s'" by (rule resultStep_trans [OF resultStep_nextOid s'(2)])
  then show ?thesis using Some s'(1) by (simp add: onResult_def Let_def)
qed

lemma onTokenizationChange_returns:
  "\<exists>s'. onTokenizationChange ed s = Inr s' \<and> resultStep s s'"
proof (cases "widget_position (widget s) \<noteq> None \<and> currentResult s \<noteq> None")
  case True
  let ?s0 = "s\<lparr>widget := widget_clear (widget s)\<rparr>"
  obtain s' where s': "setCurrentResult ed ?s0 (currentResult s) = Inr s'" "resultStep ?s0 s'"
    using setCurrentResult_returns by blast
  have "resultStep s s'" by (rule resultStep_trans [OF resultStep_widget s'(2)])
  then show ?thesis using True s'(1) by (simp add: onTokenizationChange_def)
next
  case False
  then show ?thesis by (auto simp: onTokenizationChange_def resultStep_refl)
qed

lemma step_returns: "\<exists>s'. step canAdopt ed s e = Inr s' \<and> resultStep s s'"
proof (cases e)
  case (MaybeShowAt me)
  obtain b s' where "maybeShowAt canAdopt ed s me = Inr (b, s')" "resultStep s s'"
    using maybeShowAt_returns by blast
  then show ?thesis using MaybeShowAt by simp
next
  case (StartShowingAtRange r mode src focus)
  then show ?thesis using startShowingAtRange_returns by simp
next
  case Hide
  then show ?thesis using hide_returns by simp
next
  case (OperationResult res)
  then show ?thesis using onResult_returns by simp
next
  case TokenizationChange
  then show ?thesis using onTokenizationChange_returns by simp
qed

lemma reachable_invariant:
  "reachable canAdopt registry s \<Longrightarrow>
   currentResultNonEmpty s \<and> participants s = sort_key hoverOrdinal registry"
proof (induction rule: reachable.induct)
  case reachable_new
  show ?case by (simp add: currentResultNonEmpty_def ContentHoverController_new_def)
next
  case (reachable_step s ed e s')
  obtain s2 where "step canAdopt ed s e = Inr s2" "resultStep s s2"
    using step_returns by blast
  with reachable_step have rs: "resultStep s s'" by simp
  have "currentResultNonEmpty s'"
    using resultStep_invariant [OF rs] reachable_step.IH by simp
  moreover have "participants s' = sort_key hoverOrdinal registry"
    using rs reachable_step.IH by (simp add: resultStep_def)
  ultimately show ?case by simp
qed

lemma setCurrentResult_normalizes:
  assumes "messages r = []" and "\<not> sameObject (currentResult s) (Some r)"
  shows "setCurrentResult ed s (Some r)
           = Inr (s\<lparr>currentResult := None, widget := widget_hide (widget s)\<rparr>)"
  using assms by (simp add: setCurrentResult_def)

lemma renderMessages_fails_iff: "(\<exists>e. renderMessages ed s anc msgs = Inl e) \<longleftrightarrow> msgs = []"
proof (cases "msgs = []")
  case True
  then show ?thesis by (simp add: renderMessages_empty)
next
  case False
  then show ?thesis using renderMessages_nonempty [OF False, of ed s anc] by auto
qed

subsection \<open>Object identities are fresh\<close>

text \<open>
  \<open>sameObject\<close> compares identities. It stands for \<^verbatim>\<open>===\<close> because a new object
  never gets the identity of the current result: in every reachable state the current
  result was allocated before the counter.
\<close>

lemma allocatedBefore_mono: "allocatedBefore n r \<Longrightarrow> n \<le> m \<Longrightarrow> allocatedBefore m r"
  by (induction r) auto

lemma filter_HoverResult_allocated:
  "allocatedBefore n r \<Longrightarrow>
   allocatedBefore (snd (filter_HoverResult n r anc)) (fst (filter_HoverResult n r anc))
   \<and> n \<le> snd (filter_HoverResult n r anc)"
  by (induction r) (auto simp: Let_def)

lemma renderMessages_result:
  "renderMessages ed s anc msgs = Inr s' \<Longrightarrow>
   currentResult s' = currentResult s \<and> nextOid s' = nextOid s"
  by (auto simp: renderMessages_def Let_def split: sum.splits if_splits)

lemma setCurrentResult_result:
  assumes "setCurrentResult ed s hr = Inr s'"
  shows "nextOid s' = nextOid s
         \<and> (currentResult s' = currentResult s \<or> currentResult s' = None
            \<or> currentResult s' = hr)"
proof (cases "sameObject (currentResult s) hr")
  case True
  then show ?thesis using assms by (simp add: setCurrentResult_def)
next
  case False
  show ?thesis
  proof (cases "\<exists>x. hr = Some x \<and> messages x \<noteq> []")
    case True
    then obtain x where x: "hr = Some x" "messages x \<noteq> []" by blast
    have "renderMessages ed (s\<lparr>currentResult := Some x\<rparr>) (anchor x) (messages x) = Inr s'"
      using assms False x by (simp add: setCurrentResult_def)
    from renderMessages_result [OF this] show ?thesis using x by simp
  next
    case noMsg: False
    then have "setCurrentResult ed s hr
                 = Inr (s\<lparr>currentResult := None, widget := widget_hide (widget s)\<rparr>)"
      using False by (cases hr) (auto simp: setCurrentResult_def)
    then show ?thesis using assms by auto
  qed
qed

lemma setCurrentResult_allocated:
  assumes "setCurrentResult ed s hr = Inr s'" and "currentResultAllocated s"
    and "case hr of None \<Rightarrow> True | Some r \<Rightarrow> allocatedBefore (nextOid s) r"
  shows "currentResultAllocated s' \<and> nextOid s' = nextOid s"
  using setCurrentResult_result [OF assms(1)] assms(2,3)
  by (auto simp: currentResultAllocated_def split: option.splits)

lemma start_allocated:
  "currentResultAllocated s \<Longrightarrow>
   currentResultAllocated (startHoverOperationIfNecessary s anc mode src focus insist)"
  by (simp add: currentResultAllocated_def startHoverOperationIfNecessary_def split: option.splits)

lemma startShowingOrUpdateHover_allocated:
  assumes "startShowingOrUpdateHover canAdopt ed s anc mode src focus me = Inr (b, s')"
    and "currentResultAllocated s"
  shows "currentResultAllocated s'"
proof (cases "widget_position (widget s) \<noteq> None \<and> currentResult s \<noteq> None")
  case False
  then show ?thesis using assms
    by (auto simp: startShowingOrUpdateHover_def Let_def start_allocated split: option.splits)
next
  case True
  then obtain pos cur where v: "widget_position (widget s) = Some pos" "currentResult s = Some cur"
    by auto
  obtain closer w1 where g: "isGettingCloser ed me (widget s) = (closer, w1)"
    by (cases "isGettingCloser ed me (widget s)")
  let ?s1 = "s\<lparr>widget := w1\<rparr>"
  have a1: "currentResultAllocated ?s1" using assms(2) by (simp add: currentResultAllocated_def split: option.splits)
  have cur: "allocatedBefore (nextOid s) cur"
    using assms(2) v(2) by (simp add: currentResultAllocated_def split: option.splits)
  show ?thesis
  proof (cases closer)
    case True
    then show ?thesis using assms(1) v g a1
      by (auto simp: startShowingOrUpdateHover_def Let_def start_allocated split: option.splits)
  next
    case False
    show ?thesis
    proof (cases anc)
      case None
      then obtain s2 where "setCurrentResult ed ?s1 None = Inr s2" "s' = s2"
        using assms(1) v g False
        by (auto simp: startShowingOrUpdateHover_def Let_def split: sum.splits)
      then show ?thesis using setCurrentResult_allocated [of ed ?s1 None s2] a1 by simp
    next
      case (Some a)
      show ?thesis
      proof (cases "equals (anchor cur) a")
        case True
        then show ?thesis using assms(1) v g False Some a1
          by (auto simp: startShowingOrUpdateHover_def Let_def)
      next
        case ne: False
        show ?thesis
        proof (cases "canAdopt a (anchor cur) pos")
          case False
          then obtain s2 where s2: "setCurrentResult ed ?s1 None = Inr s2"
            "s' = startHoverOperationIfNecessary s2 a mode src focus False"
            using assms(1) v g \<open>\<not> closer\<close> Some ne
            by (auto simp: startShowingOrUpdateHover_def Let_def split: sum.splits)
          have "currentResultAllocated s2"
            using setCurrentResult_allocated [of ed ?s1 None s2] s2(1) a1 by simp
          then show ?thesis using s2(2) by (simp add: start_allocated)
        next
          case True
          obtain filtered n where f: "filter_HoverResult (nextOid s) cur a = (filtered, n)"
            by (cases "filter_HoverResult (nextOid s) cur a")
          have fa: "allocatedBefore n filtered" "nextOid s \<le> n"
            using filter_HoverResult_allocated [OF cur, of a] f by simp_all
          let ?s2 = "?s1\<lparr>nextOid := n\<rparr>"
          have a2: "currentResultAllocated ?s2"
            using cur v(2) fa(2) allocatedBefore_mono
            by (auto simp: currentResultAllocated_def)
          obtain s3 where s3: "setCurrentResult ed ?s2 (Some filtered) = Inr s3"
            "s' = startHoverOperationIfNecessary s3 a mode src focus False"
            using assms(1) v g \<open>\<not> closer\<close> Some ne True f
            by (auto simp: startShowingOrUpdateHover_def Let_def split: sum.splits)
          have "currentResultAllocated s3"
            using setCurrentResult_allocated [of ed ?s2 "Some filtered" s3] s3(1) a2 fa(1)
            by simp
          then show ?thesis using s3(2) by (simp add: start_allocated)
        qed
      qed
    qed
  qed
qed

lemma withResult_allocated:
  assumes "withResult ed s hr = Inr s'" and "currentResultAllocated s"
    and "allocatedBefore (nextOid s) hr"
  shows "currentResultAllocated s'"
proof (cases "setCurrentResult ed s (Some hr) = Inr s'")
  case True
  then show ?thesis using setCurrentResult_allocated [of ed s "Some hr" s'] assms(2,3) by simp
next
  case False
  then have "s' = s" using assms(1) by (auto simp: withResult_def split: if_splits)
  then show ?thesis using assms(2) by simp
qed

lemma step_allocated:
  assumes "step canAdopt ed s e = Inr s'" and "currentResultAllocated s"
  shows "currentResultAllocated s'"
proof (cases e)
  case (MaybeShowAt me)
  then obtain b where "maybeShowAt canAdopt ed s me = Inr (b, s')"
    using assms(1) by (auto split: sum.splits)
  then show ?thesis using assms(2) startShowingOrUpdateHover_allocated
    by (auto simp: maybeShowAt_def Let_def split: list.splits)
next
  case (StartShowingAtRange r mode src focus)
  then show ?thesis using assms startShowingOrUpdateHover_allocated
    by (auto simp: startShowingAtRange_def split: sum.splits)
next
  case Hide
  let ?s0 = "s\<lparr>computer := (computer s)\<lparr>c_anchor := None\<rparr>,
               hoverOperation := hoverOperation s @ [OpCancel]\<rparr>"
  have "currentResultAllocated ?s0" using assms(2) by (simp add: currentResultAllocated_def split: option.splits)
  then show ?thesis
    using Hide assms(1) setCurrentResult_allocated [of ed ?s0 None s'] by (simp add: hide_def)
next
  case (OperationResult res)
  show ?thesis
  proof (cases "c_anchor (computer s)")
    case None
    then show ?thesis using OperationResult assms by (simp add: onResult_def)
  next
    case (Some anc)
    let ?s0 = "s\<lparr>nextOid := Suc (nextOid s)\<rparr>"
    let ?hr = "HoverResult (nextOid s) anc (onResult_messages s res) (res_isComplete res)"
    have w: "withResult ed ?s0 ?hr = Inr s'"
      using OperationResult Some assms(1) by (simp add: onResult_def Let_def)
    have "currentResultAllocated ?s0"
      using assms(2) allocatedBefore_mono [of "nextOid s" _ "Suc (nextOid s)"]
      by (auto simp: currentResultAllocated_def split: option.splits)
    then show ?thesis using withResult_allocated [OF w] by simp
  qed
next
  case TokenizationChange
  let ?s0 = "s\<lparr>widget := widget_clear (widget s)\<rparr>"
  have a0: "currentResultAllocated ?s0" using assms(2) by (simp add: currentResultAllocated_def split: option.splits)
  show ?thesis
  proof (cases "widget_position (widget s) \<noteq> None \<and> currentResult s \<noteq> None")
    case True
    then have "setCurrentResult ed ?s0 (currentResult s) = Inr s'"
      using TokenizationChange assms(1) by (simp add: onTokenizationChange_def)
    then show ?thesis
      using setCurrentResult_allocated [of ed ?s0 "currentResult s" s'] a0 assms(2)
      by (auto simp: currentResultAllocated_def split: option.splits)
  next
    case False
    then show ?thesis using TokenizationChange assms by (auto simp: onTokenizationChange_def)
  qed
qed

lemma reachable_allocated:
  "reachable canAdopt registry s \<Longrightarrow> currentResultAllocated s"
proof (induction rule: reachable.induct)
  case reachable_new
  show ?case by (simp add: currentResultAllocated_def ContentHoverController_new_def)
next
  case (reachable_step s ed e s')
  then show ?case using step_allocated by blast
qed

lemma new_result_is_not_current:
  assumes "reachable canAdopt registry s"
  shows "\<not> sameObject (currentResult s) (Some (HoverResult (nextOid s) a ms c))"
proof (cases "currentResult s")
  case None
  then show ?thesis by (simp add: sameObject_def)
next
  case (Some r)
  then have "allocatedBefore (nextOid s) r"
    using reachable_allocated [OF assms] by (simp add: currentResultAllocated_def split: option.splits)
  then have "oid r < nextOid s" by (cases r) simp_all
  then show ?thesis using Some by (simp add: sameObject_def)
qed

subsection \<open>Without a current result the overlay is hidden\<close>

lemma widget_hide_hidden:
  "visibleData (widget_hide w) = None \<and> contentsDomNode (widget_hide w) = contentsDomNode w"
  by (simp add: widget_hide_def split: option.splits)

lemma setCurrentResult_hidden:
  assumes "setCurrentResult ed s hr = Inr s'" and "hiddenWithoutResult s"
  shows "hiddenWithoutResult s'"
proof (cases "sameObject (currentResult s) hr")
  case True
  then show ?thesis using assms by (simp add: setCurrentResult_def)
next
  case False
  show ?thesis
  proof (cases "\<exists>x. hr = Some x \<and> messages x \<noteq> []")
    case True
    then obtain x where x: "hr = Some x" "messages x \<noteq> []" by blast
    have "renderMessages ed (s\<lparr>currentResult := Some x\<rparr>) (anchor x) (messages x) = Inr s'"
      using assms(1) False x by (simp add: setCurrentResult_def)
    from renderMessages_result [OF this] show ?thesis by (simp add: hiddenWithoutResult_def)
  next
    case noMsg: False
    then have "setCurrentResult ed s hr
                 = Inr (s\<lparr>currentResult := None, widget := widget_hide (widget s)\<rparr>)"
      using False by (cases hr) (auto simp: setCurrentResult_def)
    then show ?thesis using assms(1) by (auto simp: hiddenWithoutResult_def widget_hide_hidden)
  qed
qed

lemma start_hidden:
  "hiddenWithoutResult s \<Longrightarrow>
   hiddenWithoutResult (startHoverOperationIfNecessary s anc mode src focus insist)"
  by (simp add: hiddenWithoutResult_def startHoverOperationIfNecessary_def split: option.splits)

lemma startShowingOrUpdateHover_hidden:
  assumes "startShowingOrUpdateHover canAdopt ed s anc mode src focus me = Inr (b, s')"
    and "hiddenWithoutResult s"
  shows "hiddenWithoutResult s'"
proof (cases "widget_position (widget s) \<noteq> None \<and> currentResult s \<noteq> None")
  case False
  then show ?thesis using assms
    by (auto simp: startShowingOrUpdateHover_def Let_def start_hidden split: option.splits)
next
  case True
  then obtain pos cur where v: "widget_position (widget s) = Some pos" "currentResult s = Some cur"
    by auto
  obtain closer w1 where g: "isGettingCloser ed me (widget s) = (closer, w1)"
    by (cases "isGettingCloser ed me (widget s)")
  let ?s1 = "s\<lparr>widget := w1\<rparr>"
  have h1: "hiddenWithoutResult ?s1" using v(2) by (simp add: hiddenWithoutResult_def)
  show ?thesis
  proof (cases closer)
    case True
    then show ?thesis using assms(1) v g h1
      by (auto simp: startShowingOrUpdateHover_def Let_def start_hidden split: option.splits)
  next
    case False
    show ?thesis
    proof (cases anc)
      case None
      then obtain s2 where "setCurrentResult ed ?s1 None = Inr s2" "s' = s2"
        using assms(1) v g False
        by (auto simp: startShowingOrUpdateHover_def Let_def split: sum.splits)
      then show ?thesis using setCurrentResult_hidden [of ed ?s1 None s2] h1 by simp
    next
      case (Some a)
      show ?thesis
      proof (cases "equals (anchor cur) a")
        case True
        then show ?thesis using assms(1) v g False Some h1
          by (auto simp: startShowingOrUpdateHover_def Let_def)
      next
        case ne: False
        show ?thesis
        proof (cases "canAdopt a (anchor cur) pos")
          case False
          then obtain s2 where s2: "setCurrentResult ed ?s1 None = Inr s2"
            "s' = startHoverOperationIfNecessary s2 a mode src focus False"
            using assms(1) v g \<open>\<not> closer\<close> Some ne
            by (auto simp: startShowingOrUpdateHover_def Let_def split: sum.splits)
          have "hiddenWithoutResult s2"
            using setCurrentResult_hidden [of ed ?s1 None s2] s2(1) h1 by simp
          then show ?thesis using s2(2) by (simp add: start_hidden)
        next
          case True
          obtain filtered n where f: "filter_HoverResult (nextOid s) cur a = (filtered, n)"
            by (cases "filter_HoverResult (nextOid s) cur a")
          let ?s2 = "?s1\<lparr>nextOid := n\<rparr>"
          have h2: "hiddenWithoutResult ?s2" using v(2) by (simp add: hiddenWithoutResult_def)
          obtain s3 where s3: "setCurrentResult ed ?s2 (Some filtered) = Inr s3"
            "s' = startHoverOperationIfNecessary s3 a mode src focus False"
            using assms(1) v g \<open>\<not> closer\<close> Some ne True f
            by (auto simp: startShowingOrUpdateHover_def Let_def split: sum.splits)
          have "hiddenWithoutResult s3"
            using setCurrentResult_hidden [of ed ?s2 "Some filtered" s3] s3(1) h2 by simp
          then show ?thesis using s3(2) by (simp add: start_hidden)
        qed
      qed
    qed
  qed
qed

lemma withResult_hidden:
  assumes "withResult ed s hr = Inr s'" and "hiddenWithoutResult s"
  shows "hiddenWithoutResult s'"
proof (cases "setCurrentResult ed s (Some hr) = Inr s'")
  case True
  then show ?thesis using setCurrentResult_hidden assms(2) by blast
next
  case False
  then have "s' = s" using assms(1) by (auto simp: withResult_def split: if_splits)
  then show ?thesis using assms(2) by simp
qed

lemma step_hidden:
  assumes "step canAdopt ed s e = Inr s'" and "hiddenWithoutResult s"
  shows "hiddenWithoutResult s'"
proof (cases e)
  case (MaybeShowAt me)
  then obtain b where "maybeShowAt canAdopt ed s me = Inr (b, s')"
    using assms(1) by (auto split: sum.splits)
  then show ?thesis using assms(2) startShowingOrUpdateHover_hidden
    by (auto simp: maybeShowAt_def Let_def split: list.splits)
next
  case (StartShowingAtRange r mode src focus)
  then show ?thesis using assms startShowingOrUpdateHover_hidden
    by (auto simp: startShowingAtRange_def split: sum.splits)
next
  case Hide
  let ?s0 = "s\<lparr>computer := (computer s)\<lparr>c_anchor := None\<rparr>,
               hoverOperation := hoverOperation s @ [OpCancel]\<rparr>"
  have "hiddenWithoutResult ?s0"
    using assms(2) by (simp add: hiddenWithoutResult_def split: option.splits)
  then show ?thesis
    using Hide assms(1) setCurrentResult_hidden [of ed ?s0 None s'] by (simp add: hide_def)
next
  case (OperationResult res)
  show ?thesis
  proof (cases "c_anchor (computer s)")
    case None
    then show ?thesis using OperationResult assms by (simp add: onResult_def)
  next
    case (Some anc)
    let ?s0 = "s\<lparr>nextOid := Suc (nextOid s)\<rparr>"
    let ?hr = "HoverResult (nextOid s) anc (onResult_messages s res) (res_isComplete res)"
    have w: "withResult ed ?s0 ?hr = Inr s'"
      using OperationResult Some assms(1) by (simp add: onResult_def Let_def)
    have "hiddenWithoutResult ?s0"
      using assms(2) by (simp add: hiddenWithoutResult_def split: option.splits)
    then show ?thesis using withResult_hidden [OF w] by simp
  qed
next
  case TokenizationChange
  let ?s0 = "s\<lparr>widget := widget_clear (widget s)\<rparr>"
  have h0: "hiddenWithoutResult ?s0"
    using assms(2) by (simp add: hiddenWithoutResult_def widget_clear_def split: option.splits)
  show ?thesis
  proof (cases "widget_position (widget s) \<noteq> None \<and> currentResult s \<noteq> None")
    case True
    then have "setCurrentResult ed ?s0 (currentResult s) = Inr s'"
      using TokenizationChange assms(1) by (simp add: onTokenizationChange_def)
    then show ?thesis using setCurrentResult_hidden h0 by blast
  next
    case False
    then show ?thesis using TokenizationChange assms by (auto simp: onTokenizationChange_def)
  qed
qed

lemma reachable_hidden:
  "reachable canAdopt registry s \<Longrightarrow> hiddenWithoutResult s"
proof (induction rule: reachable.induct)
  case reachable_new
  show ?case by (simp add: hiddenWithoutResult_def ContentHoverController_new_def)
next
  case (reachable_step s ed e s')
  then show ?case using step_hidden by blast
qed

subsection \<open>The scenario\<close>

lemmas ex_run_defs =
  ex_defs ex_mouseA_def ex_mouseB_def ex_partial_def ex_complete_def ex_emptyComplete_def
  ex_registry_def ex_P1_def ex_P2_def ex_editor_def ex_editorNoModel_def ex_model_def
  ex_canAdopt_def ex_visibleData_def ex_shown_def ex_shownPartial_def ex_shownComplete_def
  ex_moved_def ex_insisting_def ex_insistingComplete_def ex_started_def
  ContentHoverController_new_def maybeShowAt_def startShowingAtRange_def
  startShowingOrUpdateHover_def startHoverOperationIfNecessary_def widget_position_def
  onResult_def onResult_messages_def withResult_def setCurrentResult_def sameObject_def
  renderMessages_def computeHoverRanges_def startColumnBoundary_def widget_showAt_def
  widget_hide_def isGettingCloser_def isMouseGettingCloser_def
  computeDistanceFromPointToRectangle_def equals_def plusRange_def getStartPosition_def Let_def

lemma run_reachable:
  "reachable canAdopt registry s \<Longrightarrow> run canAdopt ed s es = Inr s' \<Longrightarrow>
   reachable canAdopt registry s'"
proof (induction es arbitrary: s)
  case Nil
  then show ?case by simp
next
  case (Cons e es)
  then obtain s1 where s1: "step canAdopt ed s e = Inr s1" "run canAdopt ed s1 es = Inr s'"
    by (auto split: sum.splits)
  have "reachable canAdopt registry s1" using Cons.prems(1) s1(1) by (rule reachable_step)
  then show ?case using s1(2) by (rule Cons.IH)
qed

lemma ex_run_started:
  "run ex_canAdopt ex_editor (ContentHoverController_new ex_registry)
     [StartShowingAtRange (ex_range 4 3 3) Immediate Keyboard False] = Inr ex_started"
  by (simp add: ex_run_defs)

lemma ex_run_shownPartial:
  "run ex_canAdopt ex_editor (ContentHoverController_new ex_registry)
     [MaybeShowAt ex_mouseA, OperationResult ex_partial] = Inr ex_shownPartial"
  by (simp add: ex_run_defs)

lemma ex_run_shownComplete:
  "run ex_canAdopt ex_editor (ContentHoverController_new ex_registry)
     [MaybeShowAt ex_mouseA, OperationResult ex_complete] = Inr ex_shownComplete"
  by (simp add: ex_run_defs)

lemma ex_run_insisting:
  "run ex_canAdopt ex_editor (ContentHoverController_new ex_registry)
     [MaybeShowAt ex_mouseA, OperationResult ex_partial, MaybeShowAt ex_mouseB] = Inr ex_insisting"
  by (simp add: ex_run_defs)

lemma ex_run_insistingComplete:
  "run ex_canAdopt ex_editor (ContentHoverController_new ex_registry)
     [MaybeShowAt ex_mouseA, OperationResult ex_complete, MaybeShowAt ex_mouseB]
   = Inr ex_insistingComplete"
  by (simp add: ex_run_defs)

lemma ex_reachable:
  "reachable ex_canAdopt ex_registry ex_started"
  "reachable ex_canAdopt ex_registry ex_shownPartial"
  "reachable ex_canAdopt ex_registry ex_shownComplete"
  "reachable ex_canAdopt ex_registry ex_insisting"
  "reachable ex_canAdopt ex_registry ex_insistingComplete"
  using run_reachable [OF reachable_new] ex_run_started ex_run_shownPartial
    ex_run_shownComplete ex_run_insisting ex_run_insistingComplete
  by blast+
subsection \<open>Results of the hover operation\<close>

lemma withResult_incomplete_suppressed:
  assumes "widget_position (widget s) \<noteq> None" and "currentResult s = Some cur"
    and "isComplete cur" and "\<not> isComplete hr"
  shows "withResult ed s hr = Inr s"
  using assms by (simp add: withResult_def)

lemma withResult_empty_suppressed:
  assumes "widget_position (widget s) \<noteq> None" and "currentResult s = Some cur"
    and "isComplete cur" and "c_insistOnKeepingHoverVisible (computer s)"
    and "messages hr = []"
  shows "withResult ed s hr = Inr s"
  using assms by (simp add: withResult_def)

text \<open>
  C1: when the hover is visible with a complete current result and an incomplete result
  of the operation arrives, the handler returns without an update: the current result,
  the widget (what is displayed), the computer and the calls to the operation are as
  before. Only the allocation counter moves, for the result object that is dropped.
\<close>

theorem complete_view_not_regressed:
  assumes "widget_position (widget s) \<noteq> None" and "currentResult s = Some cur"
    and "isComplete cur" and "\<not> res_isComplete res"
  shows "\<exists>s'. onResult ed s res = Inr s'
           \<and> currentResult s' = Some cur \<and> widget s' = widget s
           \<and> computer s' = computer s \<and> hoverOperation s' = hoverOperation s
           \<and> participants s' = participants s"
proof (cases "c_anchor (computer s)")
  case None
  then show ?thesis using assms by (simp add: onResult_def)
next
  case (Some anc)
  let ?s0 = "s\<lparr>nextOid := Suc (nextOid s)\<rparr>"
  let ?hr = "HoverResult (nextOid s) anc (onResult_messages s res) (res_isComplete res)"
  have "withResult ed ?s0 ?hr = Inr ?s0"
    using assms by (intro withResult_incomplete_suppressed [where cur = cur]) simp_all
  then show ?thesis using Some assms by (simp add: onResult_def Let_def)
qed

theorem complete_view_not_regressed_witness:
  "widget_position (widget ex_shownComplete) \<noteq> None
   \<and> map_option isComplete (currentResult ex_shownComplete) = Some True
   \<and> \<not> res_isComplete ex_partial
   \<and> onResult ex_editor ex_shownComplete ex_partial = Inr (ex_shownComplete\<lparr>nextOid := 2\<rparr>)"
proof -
  have 1: "widget_position (widget ex_shownComplete) \<noteq> None"
    by (simp add: ex_shownComplete_def ex_shown_def widget_position_def)
  have 2: "currentResult ex_shownComplete
             = Some (HoverResult 0 ex_anchorA [ex_part 0 (ex_range 4 1 9)] True)"
    by (simp add: ex_shownComplete_def ex_shown_def)
  have 3: "isComplete (HoverResult 0 ex_anchorA [ex_part 0 (ex_range 4 1 9)] True)" by simp
  have 4: "\<not> res_isComplete ex_partial" by (simp add: ex_partial_def)
  have 5: "onResult ex_editor ex_shownComplete ex_partial = Inr (ex_shownComplete\<lparr>nextOid := 2\<rparr>)"
    by (simp add: ex_run_defs)
  show ?thesis
    using complete_view_not_regressed [OF 1 2 3 4, of ex_editor] 1 2 4 5 by simp
qed

lemma onResult_adopts_empty:
  assumes "reachable canAdopt registry s" and "c_anchor (computer s) = Some anc"
    and "onResult_messages s res = []"
    and "\<not> (widget_position (widget s) \<noteq> None
            \<and> (case currentResult s of None \<Rightarrow> False | Some cur \<Rightarrow> isComplete cur))"
  shows "onResult ed s res
           = Inr (s\<lparr>nextOid := Suc (nextOid s), currentResult := None,
                    widget := widget_hide (widget s)\<rparr>)"
proof -
  let ?s0 = "s\<lparr>nextOid := Suc (nextOid s)\<rparr>"
  let ?hr = "HoverResult (nextOid s) anc [] (res_isComplete res)"
  have fresh: "\<not> sameObject (currentResult ?s0) (Some ?hr)"
    using new_result_is_not_current [OF assms(1)] by simp
  have "withResult ed ?s0 ?hr = setCurrentResult ed ?s0 (Some ?hr)"
    using assms(4) by (auto simp: withResult_def split: option.splits)
  also have "\<dots> = Inr (?s0\<lparr>currentResult := None, widget := widget_hide (widget ?s0)\<rparr>)"
    using fresh by (intro setCurrentResult_normalizes) simp_all
  finally show ?thesis using assms(2,3) by (simp add: onResult_def Let_def)
qed

text \<open>
  C5, as the code has it: the insist flag is looked at only when the hover is visible
  with a complete current result. Then a result of the operation with no parts leaves
  everything as it is: the current result stays and the widget keeps displaying it.
  When the hover is visible with an incomplete current result and the computer has its
  anchor, a result with no parts is adopted, whatever the flag: the current result is
  cleared and the widget is hidden. The parts of a result are those of the HoverResult
  the handler builds, after a loading message, if any, is appended.
\<close>

theorem empty_result_suppressed_only_on_complete_view:
  "(widget_position (widget s) \<noteq> None \<and> currentResult s = Some cur \<and> isComplete cur
      \<and> c_insistOnKeepingHoverVisible (computer s) \<and> onResult_messages s res = []
    \<longrightarrow> (\<exists>s'. onResult ed s res = Inr s'
           \<and> currentResult s' = Some cur \<and> widget s' = widget s
           \<and> computer s' = computer s \<and> hoverOperation s' = hoverOperation s
           \<and> participants s' = participants s))
   \<and> (reachable canAdopt registry s
      \<and> widget_position (widget s) \<noteq> None \<and> currentResult s = Some cur \<and> \<not> isComplete cur
      \<and> c_anchor (computer s) = Some anc \<and> onResult_messages s res = []
    \<longrightarrow> (\<exists>s'. onResult ed s res = Inr s'
           \<and> currentResult s' = None \<and> visibleData (widget s') = None
           \<and> widget_position (widget s') = None
           \<and> computer s' = computer s \<and> hoverOperation s' = hoverOperation s
           \<and> participants s' = participants s))"
proof (intro conjI impI)
  assume a: "widget_position (widget s) \<noteq> None \<and> currentResult s = Some cur \<and> isComplete cur
      \<and> c_insistOnKeepingHoverVisible (computer s) \<and> onResult_messages s res = []"
  show "\<exists>s'. onResult ed s res = Inr s'
           \<and> currentResult s' = Some cur \<and> widget s' = widget s
           \<and> computer s' = computer s \<and> hoverOperation s' = hoverOperation s
           \<and> participants s' = participants s"
  proof (cases "c_anchor (computer s)")
    case None
    then show ?thesis using a by (simp add: onResult_def)
  next
    case (Some anc')
    let ?s0 = "s\<lparr>nextOid := Suc (nextOid s)\<rparr>"
    let ?hr = "HoverResult (nextOid s) anc' (onResult_messages s res) (res_isComplete res)"
    have "withResult ed ?s0 ?hr = Inr ?s0"
      using a by (intro withResult_empty_suppressed [where cur = cur]) simp_all
    then show ?thesis using Some a by (simp add: onResult_def Let_def)
  qed
next
  assume b: "reachable canAdopt registry s
      \<and> widget_position (widget s) \<noteq> None \<and> currentResult s = Some cur \<and> \<not> isComplete cur
      \<and> c_anchor (computer s) = Some anc \<and> onResult_messages s res = []"
  have "onResult ed s res
          = Inr (s\<lparr>nextOid := Suc (nextOid s), currentResult := None,
                   widget := widget_hide (widget s)\<rparr>)"
    using b by (intro onResult_adopts_empty [where canAdopt = canAdopt and registry = registry
          and anc = anc]) simp_all
  then show "\<exists>s'. onResult ed s res = Inr s'
           \<and> currentResult s' = None \<and> visibleData (widget s') = None
           \<and> widget_position (widget s') = None
           \<and> computer s' = computer s \<and> hoverOperation s' = hoverOperation s
           \<and> participants s' = participants s"
    by (simp add: widget_hide_hidden widget_position_def)
qed

theorem empty_result_suppressed_only_on_complete_view_witness:
  "widget_position (widget ex_insistingComplete) \<noteq> None
   \<and> map_option isComplete (currentResult ex_insistingComplete) = Some True
   \<and> c_insistOnKeepingHoverVisible (computer ex_insistingComplete)
   \<and> onResult_messages ex_insistingComplete ex_emptyComplete = []
   \<and> onResult ex_editor ex_insistingComplete ex_emptyComplete
       = Inr (ex_insistingComplete\<lparr>nextOid := 2\<rparr>)
   \<and> widget_position (widget ex_insisting) \<noteq> None
   \<and> map_option isComplete (currentResult ex_insisting) = Some False
   \<and> c_anchor (computer ex_insisting) = Some ex_anchorB
   \<and> onResult_messages ex_insisting ex_emptyComplete = []
   \<and> (\<exists>s'. onResult ex_editor ex_insisting ex_emptyComplete = Inr s'
           \<and> currentResult s' = None \<and> visibleData (widget s') = None)"
proof -
  have 1: "widget_position (widget ex_insistingComplete) \<noteq> None"
    "widget_position (widget ex_insisting) \<noteq> None"
    by (simp_all add: ex_insistingComplete_def ex_insisting_def ex_moved_def widget_position_def)
  have 2: "currentResult ex_insistingComplete
             = Some (HoverResult 0 ex_anchorA [ex_part 0 (ex_range 4 1 9)] True)"
    "currentResult ex_insisting
             = Some (HoverResult 0 ex_anchorA [ex_part 0 (ex_range 4 1 9)] False)"
    by (simp_all add: ex_insistingComplete_def ex_insisting_def ex_moved_def ex_shown_def)
  have 3: "c_insistOnKeepingHoverVisible (computer ex_insistingComplete)"
    "c_anchor (computer ex_insisting) = Some ex_anchorB"
    by (simp_all add: ex_insistingComplete_def ex_insisting_def ex_moved_def)
  have 4: "onResult_messages ex_insistingComplete ex_emptyComplete = []"
    "onResult_messages ex_insisting ex_emptyComplete = []"
    by (simp_all add: onResult_messages_def ex_emptyComplete_def)
  have 5: "onResult ex_editor ex_insistingComplete ex_emptyComplete
             = Inr (ex_insistingComplete\<lparr>nextOid := 2\<rparr>)"
    by (simp add: ex_run_defs)
  show ?thesis
    using empty_result_suppressed_only_on_complete_view
        [of ex_insistingComplete "HoverResult 0 ex_anchorA [ex_part 0 (ex_range 4 1 9)] True"
            ex_emptyComplete ex_editor ex_canAdopt ex_registry ex_anchorB]
      empty_result_suppressed_only_on_complete_view
        [of ex_insisting "HoverResult 0 ex_anchorA [ex_part 0 (ex_range 4 1 9)] False"
            ex_emptyComplete ex_editor ex_canAdopt ex_registry ex_anchorB]
      ex_reachable(4) 1 2 3 4 5
    by auto
qed

text \<open>
  C5 as stated fails when the visible result is incomplete. In the scenario the hover
  shows an incomplete result with one part, the mouse moves towards the hover and an
  operation is started with the insist flag set; its complete result with no parts
  clears the current result and hides the widget.
\<close>

theorem empty_result_hides_partial_view:
  "run ex_canAdopt ex_editor (ContentHoverController_new ex_registry)
     [MaybeShowAt ex_mouseA, OperationResult ex_partial, MaybeShowAt ex_mouseB] = Inr ex_insisting
   \<and> c_insistOnKeepingHoverVisible (computer ex_insisting)
   \<and> visibleData (widget ex_insisting) \<noteq> None
   \<and> map_option messages (currentResult ex_insisting) = Some [ex_part 0 (ex_range 4 1 9)]
   \<and> onResult_messages ex_insisting ex_emptyComplete = []
   \<and> onResult ex_editor ex_insisting ex_emptyComplete
       = Inr (ex_insisting\<lparr>currentResult := None,
                            widget := \<lparr>visibleData = None, contentsDomNode = [''first'']\<rparr>,
                            nextOid := 2\<rparr>)"
  by (simp add: ex_run_defs)
subsection \<open>A trigger at the anchor that is displayed\<close>

lemma isGettingCloser_displayed:
  "displayed (snd (isGettingCloser ed me w)) = displayed w"
  by (auto simp: isGettingCloser_def isMouseGettingCloser_def displayed_def Let_def
        split: option.splits)

lemma isGettingCloser_position:
  "widget_position (snd (isGettingCloser ed me w)) = widget_position w"
  by (auto simp: isGettingCloser_def isMouseGettingCloser_def widget_position_def Let_def
        split: option.splits)

text \<open>
  C9: when the hover is visible, the mouse is not getting closer to it under the sticky
  option, and the candidate anchor equals the anchor of the current result, the trigger
  returns true and is a no-op: the current result, what the widget displays and where,
  the computer and the allocation counter are unchanged, and no call reaches the hover
  operation. (The widget may have recorded the mouse position while it was asked
  whether the mouse is getting closer.)
\<close>

theorem same_anchor_trigger_is_noop:
  assumes "widget_position (widget s) \<noteq> None" and "currentResult s = Some cur"
    and "equals (anchor cur) a" and "\<not> fst (isGettingCloser ed me (widget s))"
  shows "\<exists>s'. startShowingOrUpdateHover canAdopt ed s (Some a) mode src focus me = Inr (True, s')
           \<and> currentResult s' = currentResult s
           \<and> displayed (widget s') = displayed (widget s)
           \<and> widget_position (widget s') = widget_position (widget s)
           \<and> hoverOperation s' = hoverOperation s \<and> computer s' = computer s
           \<and> participants s' = participants s \<and> nextOid s' = nextOid s"
proof -
  obtain pos where pos: "widget_position (widget s) = Some pos" using assms(1) by auto
  obtain w1 where g: "isGettingCloser ed me (widget s) = (False, w1)"
    using assms(4) by (cases "isGettingCloser ed me (widget s)") auto
  have w1: "displayed w1 = displayed (widget s)" "widget_position w1 = widget_position (widget s)"
    using isGettingCloser_displayed [of ed me "widget s"]
      isGettingCloser_position [of ed me "widget s"] g by simp_all
  have "startShowingOrUpdateHover canAdopt ed s (Some a) mode src focus me
          = Inr (True, s\<lparr>widget := w1\<rparr>)"
    using pos assms(2,3) g by (simp add: startShowingOrUpdateHover_def)
  then show ?thesis using w1 by simp
qed

theorem same_anchor_trigger_is_noop_witness:
  "widget_position (widget ex_shownComplete) \<noteq> None
   \<and> map_option anchor (currentResult ex_shownComplete) = Some ex_anchorA
   \<and> equals ex_anchorA (HoverRangeAnchor 0 (ex_range 4 3 3) (Some 300) (Some 300))
   \<and> \<not> fst (isGettingCloser (ex_editor\<lparr>hover_sticky := False\<rparr>) (Some ex_mouseA)
               (widget ex_shownComplete))
   \<and> startShowingOrUpdateHover ex_canAdopt (ex_editor\<lparr>hover_sticky := False\<rparr>) ex_shownComplete
        (Some (HoverRangeAnchor 0 (ex_range 4 3 3) (Some 300) (Some 300)))
        Delayed Mouse False (Some ex_mouseA)
      = Inr (True, ex_shownComplete)"
proof -
  have 1: "widget_position (widget ex_shownComplete) \<noteq> None"
    by (simp add: ex_shownComplete_def ex_shown_def widget_position_def)
  have 2: "currentResult ex_shownComplete
             = Some (HoverResult 0 ex_anchorA [ex_part 0 (ex_range 4 1 9)] True)"
    by (simp add: ex_shownComplete_def ex_shown_def)
  have 3: "equals (anchor (HoverResult 0 ex_anchorA [ex_part 0 (ex_range 4 1 9)] True))
             (HoverRangeAnchor 0 (ex_range 4 3 3) (Some 300) (Some 300))"
    by (simp add: equals_def ex_defs)
  have 4: "\<not> fst (isGettingCloser (ex_editor\<lparr>hover_sticky := False\<rparr>) (Some ex_mouseA)
                  (widget ex_shownComplete))"
    by (simp add: isGettingCloser_def)
  have 5: "startShowingOrUpdateHover ex_canAdopt (ex_editor\<lparr>hover_sticky := False\<rparr>)
             ex_shownComplete (Some (HoverRangeAnchor 0 (ex_range 4 3 3) (Some 300) (Some 300)))
             Delayed Mouse False (Some ex_mouseA)
           = Inr (True, ex_shownComplete)"
    by (simp add: ex_run_defs)
  show ?thesis
    using same_anchor_trigger_is_noop [OF 1 2 3 4, of ex_canAdopt Delayed Mouse False] 1 2 3 4 5
    by simp
qed

subsection \<open>Participants stay in ordinal order\<close>

text \<open>
  C8: in every state of the controller the participants are the registered ones sorted
  by ordinal, ties in registration order; \<open>computeSync\<close> is empty without a model or
  without an anchor, and otherwise the parts each participant computes for the anchor
  and the line's decorations, concatenated in that order, with undefined entries dropped.
\<close>

theorem computeSync_in_ordinal_order:
  assumes "reachable canAdopt registry s"
  shows "computeSync ed (participants s) (computer s) =
           (case getModel ed of
              None \<Rightarrow> []
            | Some model \<Rightarrow>
                (case c_anchor (computer s) of
                   None \<Rightarrow> []
                 | Some anc \<Rightarrow>
                     coalesce (concat (map (\<lambda>p. p_computeSync p anc
                                                 (computer_getLineDecorations model anc))
                                         (participants s)))))
         \<and> sorted (map hoverOrdinal (participants s))
         \<and> mset (participants s) = mset registry
         \<and> filter (\<lambda>p. hoverOrdinal p = k) (participants s)
             = filter (\<lambda>p. hoverOrdinal p = k) registry"
proof -
  have ps: "participants s = sort_key hoverOrdinal registry"
    using reachable_invariant [OF assms] by simp
  have 1: "computeSync ed (participants s) (computer s) =
          (case getModel ed of
             None \<Rightarrow> []
           | Some model \<Rightarrow>
               (case c_anchor (computer s) of
                  None \<Rightarrow> []
                | Some anc \<Rightarrow>
                    coalesce (concat (map (\<lambda>p. p_computeSync p anc
                                                (computer_getLineDecorations model anc))
                                        (participants s)))))"
    by (simp add: computeSync_def computeSync_loop_concat Let_def split: option.splits)
  have 2: "sorted (map hoverOrdinal (participants s))"
    by (simp add: ps sorted_sort_key)
  have 3: "mset (participants s) = mset registry"
    by (simp add: ps)
  have 4: "filter (\<lambda>p. hoverOrdinal p = k) (participants s)
             = filter (\<lambda>p. hoverOrdinal p = k) registry"
    by (simp add: ps sort_key_stable)
  show ?thesis using 1 2 3 4 by (intro conjI)
qed

theorem computeSync_in_ordinal_order_witness:
  "map hoverOrdinal ex_registry = [1, 0]
   \<and> map hoverOrdinal (participants ex_shownPartial) = [0, 1]
   \<and> computeSync ex_editor (participants ex_shownPartial) (computer ex_shownPartial)
       = [ex_part 0 (ex_range 4 1 9), ex_part 1 (ex_range 4 3 9)]
   \<and> computeSync ex_editorNoModel (participants ex_shownPartial) (computer ex_shownPartial) = []"
  using computeSync_in_ordinal_order [OF ex_reachable(2), of ex_editor]
    computeSync_in_ordinal_order [OF ex_reachable(2), of ex_editorNoModel]
  by (simp add: ex_run_defs)

subsection \<open>The current result is never empty\<close>

text \<open>
  C10: in every state the controller reaches, the current result, when there is one, has
  a message, and without a current result the overlay is hidden. Every operation returns
  from such a state (none meets the TypeError of \<open>computeHoverRanges\<close> on an empty
  list, which is where rendering fails: lemma \<open>renderMessages_fails_iff\<close>), in a
  state with the same two properties. And \<open>_setCurrentResult\<close>, given a result
  without messages that is not the current object, stores no result and hides the
  widget.
\<close>

theorem current_result_never_empty:
  assumes "reachable canAdopt registry s"
  shows "currentResultNonEmpty s \<and> hiddenWithoutResult s
         \<and> (\<exists>s'. step canAdopt ed s e = Inr s'
                \<and> currentResultNonEmpty s' \<and> hiddenWithoutResult s')
         \<and> (messages r = [] \<and> \<not> sameObject (currentResult s) (Some r) \<longrightarrow>
              (\<exists>s'. setCurrentResult ed s (Some r) = Inr s'
                    \<and> currentResult s' = None \<and> visibleData (widget s') = None
                    \<and> widget_position (widget s') = None))"
proof -
  have inv: "currentResultNonEmpty s" using reachable_invariant [OF assms] by simp
  have hid: "hiddenWithoutResult s" using reachable_hidden [OF assms] .
  obtain s' where s': "step canAdopt ed s e = Inr s'" "resultStep s s'"
    using step_returns by blast
  have 1: "currentResultNonEmpty s'" using resultStep_invariant [OF s'(2) inv] .
  have 2: "hiddenWithoutResult s'" using step_hidden [OF s'(1) hid] .
  have 3: "\<exists>s'. setCurrentResult ed s (Some r) = Inr s'
                    \<and> currentResult s' = None \<and> visibleData (widget s') = None
                    \<and> widget_position (widget s') = None"
    if "messages r = [] \<and> \<not> sameObject (currentResult s) (Some r)"
  proof -
    have "setCurrentResult ed s (Some r)
            = Inr (s\<lparr>currentResult := None, widget := widget_hide (widget s)\<rparr>)"
      using that by (intro setCurrentResult_normalizes) simp_all
    then show ?thesis by (simp add: widget_hide_hidden widget_position_def)
  qed
  show ?thesis using inv hid s'(1) 1 2 3 by blast
qed

theorem current_result_never_empty_witness:
  "currentResultNonEmpty ex_insisting
   \<and> map_option messages (currentResult ex_insisting) = Some [ex_part 0 (ex_range 4 1 9)]
   \<and> visibleData (widget ex_insisting) \<noteq> None
   \<and> (\<exists>s'. step ex_canAdopt ex_editor ex_insisting (OperationResult ex_emptyComplete) = Inr s'
            \<and> currentResult s' = None \<and> visibleData (widget s') = None
            \<and> currentResultNonEmpty s')
   \<and> messages (HoverResult 1 ex_anchorB [] True) = []
   \<and> \<not> sameObject (currentResult ex_insisting) (Some (HoverResult 1 ex_anchorB [] True))
   \<and> (\<exists>s'. setCurrentResult ex_editor ex_insisting (Some (HoverResult 1 ex_anchorB [] True))
              = Inr s'
            \<and> currentResult s' = None \<and> visibleData (widget s') = None)"
proof -
  have st: "step ex_canAdopt ex_editor ex_insisting (OperationResult ex_emptyComplete)
          = Inr (ex_insisting\<lparr>currentResult := None,
                               widget := \<lparr>visibleData = None, contentsDomNode = [''first'']\<rparr>,
                               nextOid := 2\<rparr>)"
    by (simp add: ex_run_defs)
  have ms: "map_option messages (currentResult ex_insisting)
                   = Some [ex_part 0 (ex_range 4 1 9)]"
    "visibleData (widget ex_insisting) \<noteq> None"
    by (simp_all add: ex_insisting_def ex_moved_def ex_shown_def)
  have ns: "\<not> sameObject (currentResult ex_insisting) (Some (HoverResult 1 ex_anchorB [] True))"
    by (simp add: sameObject_def ex_insisting_def ex_moved_def ex_shown_def)
  show ?thesis
    using current_result_never_empty [OF ex_reachable(4), of ex_editor
        "OperationResult ex_emptyComplete" "HoverResult 1 ex_anchorB [] True"] st ms ns
    by auto
qed

end
